theory Spec2Isabelle
  imports Main "HOL-Library.AList"
begin

chapter \<open>The client-side utility layer of the hospital management front end\<close>

text \<open>
  A shallow embedding of the utility script (CookieManager, AjaxHandler, LoadingManager,
  FormUtils, StateManager) and of the landing header controller. Everything the script
  takes from the browser (the cookie string, \<^verbatim>\<open>JSON.parse\<close>, the outcome of
  \<^verbatim>\<open>$.ajax\<close>, the clock) is an explicit argument of the function that reads it.
\<close>

section \<open>JavaScript values\<close>

text \<open>
  The values the script handles: response bodies decoded from JSON, messages, header and
  form values. Numbers are the integers; an object is the list of its own properties.
  Two kinds of built-in values show up where the script reads a dictionary under a name
  that every object inherits: a built-in function, known by its name, and the object
  \<^verbatim>\<open>Object.prototype\<close>.
\<close>

datatype jsval =
    JUndefined
  | JNull
  | JBool bool
  | JNum int
  | JStr string
  | JArr "jsval list"
  | JObj "(string \<times> jsval) list"
  | JFunction string
  | JObjectPrototype

text \<open>The truthiness test of \<^verbatim>\<open>if (v)\<close>, \<^verbatim>\<open>v && w\<close> and \<^verbatim>\<open>v || w\<close>.\<close>

fun truthy :: "jsval \<Rightarrow> bool" where
  "truthy JUndefined = False"
| "truthy JNull = False"
| "truthy (JBool b) = b"
| "truthy (JNum n) = (n \<noteq> 0)"
| "truthy (JStr s) = (s \<noteq> [])"
| "truthy (JArr xs) = True"
| "truthy (JObj kvs) = True"
| "truthy (JFunction n) = True"
| "truthy JObjectPrototype = True"

text \<open>
  Reading a property \<^verbatim>\<open>v.k\<close>, for the property names the script reads from decoded
  bodies (\<^verbatim>\<open>detail\<close>, \<^verbatim>\<open>error\<close>, \<^verbatim>\<open>redirect_url\<close>): on
  \<^verbatim>\<open>null\<close> and \<^verbatim>\<open>undefined\<close> the read throws a TypeError (\<open>None\<close>); an
  object gives its property or \<^verbatim>\<open>undefined\<close>; every other value has no such property.
\<close>

fun get_prop :: "jsval \<Rightarrow> string \<Rightarrow> jsval option" where
  "get_prop JUndefined k = None"
| "get_prop JNull k = None"
| "get_prop (JObj kvs) k = Some (case map_of kvs k of Some v \<Rightarrow> v | None \<Rightarrow> JUndefined)"
| "get_prop v k = Some JUndefined"

text \<open>
  The value of \<^verbatim>\<open>v && v.k\<close>: \<open>v\<close> itself when it is falsy, the property otherwise
  (a truthy value is neither \<^verbatim>\<open>null\<close> nor \<^verbatim>\<open>undefined\<close>, so the read cannot throw).
\<close>

fun and_prop :: "jsval \<Rightarrow> string \<Rightarrow> jsval" where
  "and_prop v k =
     (if truthy v then (case get_prop v k of Some d \<Rightarrow> d | None \<Rightarrow> JUndefined) else v)"

text \<open>\<^verbatim>\<open>typeof v === 'string'\<close> and \<^verbatim>\<open>typeof v === 'object'\<close>.\<close>

fun typeof_string :: "jsval \<Rightarrow> bool" where
  "typeof_string (JStr s) = True"
| "typeof_string v = False"

fun typeof_object :: "jsval \<Rightarrow> bool" where
  "typeof_object JNull = True"
| "typeof_object (JArr xs) = True"
| "typeof_object (JObj kvs) = True"
| "typeof_object v = False"

text \<open>
  \<^verbatim>\<open>s || m\<close> where \<open>s\<close> is a string that may be missing (\<^verbatim>\<open>undefined\<close>): the
  string when it is there and not empty, \<open>m\<close> otherwise.
\<close>

fun or_else :: "string option \<Rightarrow> jsval \<Rightarrow> jsval" where
  "or_else None m = m"
| "or_else (Some s) m = (if s \<noteq> [] then JStr s else m)"

section \<open>Objects and their prototype\<close>

text \<open>
  The script uses plain objects as dictionaries (\<^verbatim>\<open>jsonData\<close>, \<^verbatim>\<open>state\<close>,
  \<^verbatim>\<open>listeners\<close>), and \<^verbatim>\<open>obj[key]\<close> also finds what the object inherits. These
  are the names \<^verbatim>\<open>Object.prototype\<close> defines: eleven functions and the accessor
  \<^verbatim>\<open>__proto__\<close>, whose getter gives the prototype of the object and whose setter
  replaces it.
\<close>

definition object_prototype_keys :: "string list" where
  "object_prototype_keys =
     [''constructor'', ''__defineGetter__'', ''__defineSetter__'', ''hasOwnProperty'',
      ''__lookupGetter__'', ''__lookupSetter__'', ''isPrototypeOf'', ''propertyIsEnumerable'',
      ''toString'', ''valueOf'', ''__proto__'', ''toLocaleString'']"

text \<open>\<^verbatim>\<open>obj[key]\<close> for a key the object does not hold itself, with its first prototype.\<close>

definition object_member :: "string \<Rightarrow> jsval" where
  "object_member key =
     (if key = ''__proto__'' then JObjectPrototype
      else if key \<in> set object_prototype_keys then JFunction (''Object.prototype.'' @ key)
      else JUndefined)"

text \<open>The values the setter of \<^verbatim>\<open>__proto__\<close> takes for a prototype: objects and \<^verbatim>\<open>null\<close>.\<close>

fun is_object :: "jsval \<Rightarrow> bool" where
  "is_object (JArr xs) = True"
| "is_object (JObj kvs) = True"
| "is_object (JFunction n) = True"
| "is_object JObjectPrototype = True"
| "is_object v = False"

text \<open>
  The order in which \<^verbatim>\<open>for (const key in obj)\<close> visits the keys of an object: first
  the keys that are array indices (the decimal numerals below \<open>2^32 - 1\<close>, without a
  leading zero), by their number, then the other keys in the order they were added. What
  \<^verbatim>\<open>Object.prototype\<close> defines is not enumerable and is not visited.
\<close>

definition digit_value :: "char \<Rightarrow> nat" where
  "digit_value c = of_char c - 48"

definition array_index :: "string \<Rightarrow> nat option" where
  "array_index s =
     (let n = foldl (\<lambda>n c. 10 * n + digit_value c) 0 s
      in if s \<noteq> [] \<and> list_all (\<lambda>c. c \<in> set ''0123456789'') s
            \<and> (s = ''0'' \<or> hd s \<noteq> CHR ''0'') \<and> n < 2 ^ 32 - 1
         then Some n else None)"

definition for_in_keys :: "(string \<times> 'a) list \<Rightarrow> string list" where
  "for_in_keys obj =
     (let keys = map fst obj
      in sort_key (\<lambda>k. case array_index k of Some n \<Rightarrow> n | None \<Rightarrow> 0)
           (filter (\<lambda>k. array_index k \<noteq> None) keys)
         @ filter (\<lambda>k. array_index k = None) keys)"

section \<open>AjaxHandler.handleError\<close>

text \<open>
  The object \<^verbatim>\<open>$.ajax\<close> rejects with. \<^verbatim>\<open>responseText\<close> and
  \<^verbatim>\<open>statusText\<close> are strings when present; \<^verbatim>\<open>responseJSON\<close> and
  \<^verbatim>\<open>status\<close> are \<^verbatim>\<open>undefined\<close> when the object has no such field (an
  exception that is not a jqXHR).
\<close>

record jqXHR =
  responseJSON :: jsval
  responseText :: "string option"
  statusText :: "string option"
  status :: jsval

text \<open>The record \<^verbatim>\<open>request\<close> resolves to: the two object shapes it returns.\<close>

datatype ajax_result =
    Success (result_data: jsval)
  | Failure (result_error: jsval) (result_status: jsval)

definition generic_message :: jsval where
  "generic_message = JStr ''An unexpected error occurred''"

text \<open>
  The first \<^verbatim>\<open>try\<close> block (lines 167-171), entered with \<open>message\<close>:
  \<open>None\<close> when \<^verbatim>\<open>JSON.parse\<close> throws or the read of \<^verbatim>\<open>detail\<close> does.
  \<open>parse\<close> is \<^verbatim>\<open>JSON.parse\<close>, \<open>None\<close> where it throws a SyntaxError.
\<close>

definition outer_try :: "(string \<Rightarrow> jsval option) \<Rightarrow> string \<Rightarrow> jsval \<Rightarrow> jsval option" where
  "outer_try parse txt message =
     (case parse txt of
        None \<Rightarrow> None
      | Some response \<Rightarrow>
          (case get_prop response ''detail'' of
             None \<Rightarrow> None
           | Some d \<Rightarrow> Some (if truthy d then d else message)))"

text \<open>
  The nested \<^verbatim>\<open>try\<close> block (lines 176-186). \<open>values_join\<close> is
  \<^verbatim>\<open>Object.values(response).join(', ')\<close>.
\<close>

definition inner_try ::
  "(string \<Rightarrow> jsval option) \<Rightarrow> (jsval \<Rightarrow> string) \<Rightarrow> string \<Rightarrow> jsval \<Rightarrow> jsval option" where
  "inner_try parse values_join txt message =
     (case parse txt of
        None \<Rightarrow> None
      | Some response \<Rightarrow>
          (case get_prop response ''detail'' of
             None \<Rightarrow> None
           | Some d \<Rightarrow>
               if truthy d then Some d
               else (case get_prop response ''error'' of
                  None \<Rightarrow> None
                | Some e \<Rightarrow>
                    if truthy e then Some e
                    else if typeof_string response then Some response
                    else if typeof_object response
                      then Some (or_else (Some (values_join response)) message)
                    else Some message)))"

text \<open>The \<^verbatim>\<open>catch\<close> block of the first \<^verbatim>\<open>try\<close> (lines 172-195).\<close>

definition catch_block ::
  "(string \<Rightarrow> jsval option) \<Rightarrow> (jsval \<Rightarrow> string) \<Rightarrow> jqXHR \<Rightarrow> jsval" where
  "catch_block parse values_join e =
     (let message = generic_message;
          message =
            (case responseText e of
               None \<Rightarrow> message
             | Some txt \<Rightarrow>
                 if txt \<noteq> [] then
                   (case inner_try parse values_join txt message of
                      Some m \<Rightarrow> m
                    | None \<Rightarrow> or_else (statusText e) message)
                 else message)
      in or_else (statusText e) message)"

text \<open>The message before the status switch (lines 162-198).\<close>

definition body_message ::
  "(string \<Rightarrow> jsval option) \<Rightarrow> (jsval \<Rightarrow> string) \<Rightarrow> jqXHR \<Rightarrow> jsval" where
  "body_message parse values_join e =
     (let message = generic_message in
      if truthy (and_prop (responseJSON e) ''detail'')
        then and_prop (responseJSON e) ''detail''
      else (case responseText e of
         Some txt \<Rightarrow>
           if txt \<noteq> [] then
             (case outer_try parse txt message of
                Some m \<Rightarrow> m
              | None \<Rightarrow> catch_block parse values_join e)
           else or_else (statusText e) message
       | None \<Rightarrow> or_else (statusText e) message))"

text \<open>The \<^verbatim>\<open>switch (error.status)\<close> of lines 201-216; the cases compare with \<^verbatim>\<open>===\<close>.\<close>

definition status_switch :: "jsval \<Rightarrow> jsval \<Rightarrow> jsval" where
  "status_switch st message =
     (if st = JNum 401 then JStr ''Unauthorized access. Please log in.''
      else if st = JNum 403
        then JStr ''Access forbidden. You do not have permission to perform this action.''
      else if st = JNum 404 then JStr ''Resource not found.''
      else if st = JNum 500 then JStr ''Internal server error. Please try again later.''
      else message)"

definition handleError ::
  "(string \<Rightarrow> jsval option) \<Rightarrow> (jsval \<Rightarrow> string) \<Rightarrow> jqXHR \<Rightarrow> ajax_result" where
  "handleError parse values_join e =
     Failure (status_switch (status e) (body_message parse values_join e)) (status e)"

subsection \<open>The fallback chain of the specification\<close>

text \<open>
  The message as the specification words it, for comparison with \<open>body_message\<close>: the
  body decoded as JSON (what jQuery decoded, else the response text parsed), its
  \<^verbatim>\<open>detail\<close> field, else its \<^verbatim>\<open>error\<close> field, else the status text, else the
  generic message.
\<close>

definition field :: "jsval \<Rightarrow> string \<Rightarrow> jsval" where
  "field v k = (case get_prop v k of Some x \<Rightarrow> x | None \<Rightarrow> JUndefined)"

definition single_fallback_chain :: "(string \<Rightarrow> jsval option) \<Rightarrow> jqXHR \<Rightarrow> jsval" where
  "single_fallback_chain parse e =
     (let decoded =
        (if truthy (responseJSON e) then Some (responseJSON e)
         else (case responseText e of Some txt \<Rightarrow> parse txt | None \<Rightarrow> None))
      in case decoded of
           Some b \<Rightarrow>
             if truthy (field b ''detail'') then field b ''detail''
             else if truthy (field b ''error'') then field b ''error''
             else or_else (statusText e) generic_message
         | None \<Rightarrow> or_else (statusText e) generic_message)"

section \<open>CookieManager\<close>

text \<open>
  \<^verbatim>\<open>s.split(sep)\<close> for a separator of one character: the pieces between the
  separators, so the empty string gives one empty piece.
\<close>

fun split_on :: "char \<Rightarrow> string \<Rightarrow> string list" where
  "split_on sep [] = [[]]"
| "split_on sep (c # cs) =
     (if c = sep then [] # split_on sep cs
      else (case split_on sep cs of
              [] \<Rightarrow> [[c]]
            | p # ps \<Rightarrow> (c # p) # ps))"

text \<open>\<^verbatim>\<open>c.indexOf(p) === 0\<close>: \<open>p\<close> stands at the start of \<open>c\<close>.\<close>

definition starts_with :: "string \<Rightarrow> string \<Rightarrow> bool" where
  "starts_with p c = (take (length p) c = p)"

text \<open>
  The loop of \<^verbatim>\<open>getCookie\<close> over the pieces of the cookie string: leading spaces
  are cut off each piece, and the first piece that starts with \<^verbatim>\<open>name=\<close> gives the
  value; \<open>None\<close> is \<^verbatim>\<open>null\<close>.
\<close>

fun getCookie_loop :: "string \<Rightarrow> string list \<Rightarrow> string option" where
  "getCookie_loop nameEQ [] = None"
| "getCookie_loop nameEQ (piece # ca) =
     (let c = dropWhile (\<lambda>x. x = CHR '' '') piece in
      if starts_with nameEQ c then Some (drop (length nameEQ) c)
      else getCookie_loop nameEQ ca)"

text \<open>\<^verbatim>\<open>getCookie(name)\<close>, reading the string \<open>cookie\<close> that \<^verbatim>\<open>document.cookie\<close> gives.\<close>

definition getCookie :: "string \<Rightarrow> string \<Rightarrow> string option" where
  "getCookie cookie name = getCookie_loop (name @ ''='') (split_on CHR '';'' cookie)"

text \<open>
  The string \<^verbatim>\<open>setCookie(name, value, days)\<close> assigns to \<^verbatim>\<open>document.cookie\<close>.
  \<open>now\<close> is \<^verbatim>\<open>date.getTime()\<close> in milliseconds and \<open>toUTCString\<close> renders a time;
  \<open>days = 0\<close> stands for every falsy \<^verbatim>\<open>days\<close> (also a missing one).
\<close>

definition setCookie_string :: "(int \<Rightarrow> string) \<Rightarrow> int \<Rightarrow> string \<Rightarrow> string \<Rightarrow> int \<Rightarrow> string" where
  "setCookie_string toUTCString now name value days =
     (let expires =
        (if days \<noteq> 0 then ''; expires='' @ toUTCString (now + days * 24 * 60 * 60 * 1000)
         else [])
      in name @ ''='' @ (if value \<noteq> [] then value else []) @ expires @ ''; path=/'')"

subsection \<open>The browser's cookie string\<close>



section \<open>LoadingManager\<close>

text \<open>
  The document, as far as the loading indicator touches it: the elements of the head and
  of the body in document order, each with its tag, its id, its class list, its
  \<^verbatim>\<open>disabled\<close> flag and the class names of its children. The nesting of the other
  elements and the style texts are left out.
\<close>

record element =
  tag :: string
  elem_id :: string
  classList :: "string list"
  disabled :: bool
  children :: "string list"

record document =
  head :: "element list"
  body :: "element list"

text \<open>
  The target of \<^verbatim>\<open>showLoading\<close> and \<^verbatim>\<open>hideLoading\<close>: the string
  \<^verbatim>\<open>'page'\<close>, or an element, given by its position in the body; \<open>Element None\<close> is
  a selector that matches nothing (\<^verbatim>\<open>querySelector\<close> gives \<^verbatim>\<open>null\<close>).
\<close>

datatype target = Page | Element "nat option"

definition getElementById :: "document \<Rightarrow> string \<Rightarrow> element option" where
  "getElementById d i = find (\<lambda>e. elem_id e = i) (head d @ body d)"

text \<open>\<^verbatim>\<open>e.remove()\<close> for the element \<^verbatim>\<open>getElementById(i)\<close> found: the first with that id.\<close>

fun remove_first :: "string \<Rightarrow> element list \<Rightarrow> element list" where
  "remove_first i [] = []"
| "remove_first i (e # es) = (if elem_id e = i then es else e # remove_first i es)"

definition remove_element :: "string \<Rightarrow> document \<Rightarrow> document" where
  "remove_element i d =
     (if \<exists>e \<in> set (head d). elem_id e = i then d\<lparr>head := remove_first i (head d)\<rparr>
      else d\<lparr>body := remove_first i (body d)\<rparr>)"

definition overlay :: element where
  "overlay = \<lparr>tag = ''div'', elem_id = ''loading-overlay'', classList = [], disabled = False,
     children = [''spinner'']\<rparr>"

definition spin_style :: element where
  "spin_style = \<lparr>tag = ''style'', elem_id = [], classList = [], disabled = False, children = []\<rparr>"

text \<open>\<^verbatim>\<open>classList.add\<close> and \<^verbatim>\<open>classList.remove\<close>.\<close>

definition class_add :: "string \<Rightarrow> string list \<Rightarrow> string list" where
  "class_add c cs = (if c \<in> set cs then cs else cs @ [c])"

definition class_remove :: "string \<Rightarrow> string list \<Rightarrow> string list" where
  "class_remove c cs = filter (\<lambda>x. x \<noteq> c) cs"

definition showLoading :: "target \<Rightarrow> document \<Rightarrow> document" where
  "showLoading t d =
     (case t of
        Page \<Rightarrow>
          (if getElementById d ''loading-overlay'' = None
           then d\<lparr>body := body d @ [overlay], head := head d @ [spin_style]\<rparr>
           else d)
      | Element None \<Rightarrow> d
      | Element (Some n) \<Rightarrow>
          (if n < length (body d)
           then d\<lparr>body := (body d)[n := (body d ! n)\<lparr>classList := class_add ''loading'' (classList (body d ! n)),
                                                   disabled := True\<rparr>]\<rparr>
           else d))"

definition hideLoading :: "target \<Rightarrow> document \<Rightarrow> document" where
  "hideLoading t d =
     (case t of
        Page \<Rightarrow>
          (case getElementById d ''loading-overlay'' of
             Some e \<Rightarrow> remove_element ''loading-overlay'' d
           | None \<Rightarrow> d)
      | Element None \<Rightarrow> d
      | Element (Some n) \<Rightarrow>
          (if n < length (body d)
           then d\<lparr>body := (body d)[n := (body d ! n)\<lparr>classList := class_remove ''loading'' (classList (body d ! n)),
                                                   disabled := False\<rparr>]\<rparr>
           else d))"

text \<open>The number of full-page overlays in the document.\<close>

definition overlays :: "document \<Rightarrow> nat" where
  "overlays d = length (filter (\<lambda>e. elem_id e = ''loading-overlay'') (head d @ body d))"

text \<open>A call of the loading manager, and the effect of a sequence of calls.\<close>

datatype loading_call = ShowLoading target | HideLoading target

fun loading_step :: "document \<Rightarrow> loading_call \<Rightarrow> document" where
  "loading_step d (ShowLoading t) = showLoading t d"
| "loading_step d (HideLoading t) = hideLoading t d"

section \<open>AjaxHandler.request\<close>

text \<open>The constants of \<^verbatim>\<open>CONFIG\<close>; an object of headers is a map from names to values.\<close>

definition API_BASE_URL :: string where
  "API_BASE_URL = ''/api/v1''"

definition TIMEOUT :: int where
  "TIMEOUT = 30000"

definition HEADERS :: "string \<rightharpoonup> string" where
  "HEADERS = [''Content-Type'' \<mapsto> ''application/json'', ''Accept'' \<mapsto> ''application/json'']"

definition AUTH_TOKEN_KEY :: string where
  "AUTH_TOKEN_KEY = ''hms_auth_token''"

text \<open>The fields the constructor of \<^verbatim>\<open>AjaxHandler\<close> sets.\<close>

record AjaxHandler =
  this_retries :: int
  this_retryDelay :: int

definition new_AjaxHandler :: AjaxHandler where
  "new_AjaxHandler = \<lparr>this_retries = 3, this_retryDelay = 1000\<rparr>"

text \<open>
  The \<^verbatim>\<open>options\<close> argument: a field that is \<open>None\<close> is missing, and the
  destructuring pattern gives it its default.
\<close>

record options =
  retries :: "int option"
  retryDelay :: "int option"
  timeout :: "int option"
  headers :: "(string \<rightharpoonup> string) option"

definition no_options :: options where
  "no_options = \<lparr>retries = None, retryDelay = None, timeout = None, headers = None\<rparr>"

text \<open>
  The \<^verbatim>\<open>data\<close> argument is a \<^verbatim>\<open>FormData\<close> object or a plain value
  (\<^verbatim>\<open>null\<close> by default). What is sent is the form itself or the JSON text of the
  value; \<open>JsonText v\<close> stands for the string \<^verbatim>\<open>JSON.stringify(v)\<close>.
\<close>

datatype payload = FormData "(string \<times> string) list" | Plain jsval

datatype sent_data = RawForm "(string \<times> string) list" | JsonText jsval

text \<open>The settings object \<^verbatim>\<open>requestOptions\<close> handed to \<^verbatim>\<open>$.ajax\<close>.\<close>

record requestOptions =
  url :: string
  "method" :: string
  ro_timeout :: int
  ro_headers :: "string \<rightharpoonup> string"
  dataType :: string
  processData :: "bool option"
  contentType :: "bool option"
  ro_data :: "sent_data option"

text \<open>
  Lines 97-110: the default headers, overridden by the caller's, then the two tokens read
  from the cookie string; \<^verbatim>\<open>if (token)\<close> skips a missing and an empty token.
\<close>

definition with_token :: "string option \<Rightarrow> string \<Rightarrow> (string \<Rightarrow> string) \<Rightarrow> (string \<rightharpoonup> string) \<Rightarrow> (string \<rightharpoonup> string)" where
  "with_token token name render hs =
     (case token of
        None \<Rightarrow> hs
      | Some t \<Rightarrow> if t \<noteq> [] then hs(name \<mapsto> render t) else hs)"

definition request_headers :: "string \<Rightarrow> (string \<rightharpoonup> string) \<Rightarrow> (string \<rightharpoonup> string)" where
  "request_headers cookie hs =
     (let defaultHeaders = HEADERS ++ hs;
          defaultHeaders =
            with_token (getCookie cookie AUTH_TOKEN_KEY) ''Authorization'' (\<lambda>t. ''Bearer '' @ t)
              defaultHeaders;
          defaultHeaders =
            with_token (getCookie cookie ''csrftoken'') ''X-CSRFToken'' (\<lambda>t. t) defaultHeaders
      in defaultHeaders)"

text \<open>Lines 115-131: the settings of one attempt.\<close>

definition make_requestOptions ::
  "string \<Rightarrow> string \<Rightarrow> payload \<Rightarrow> int \<Rightarrow> (string \<rightharpoonup> string) \<Rightarrow> requestOptions" where
  "make_requestOptions meth u d tmo hs =
     (let ro = \<lparr>url = API_BASE_URL @ u, method = meth, ro_timeout = tmo, ro_headers = hs,
                 dataType = ''json'', processData = None, contentType = None, ro_data = None\<rparr>
      in case d of
           FormData entries \<Rightarrow>
             ro\<lparr>processData := Some False, contentType := Some False, ro_data := Some (RawForm entries)\<rparr>
         | Plain v \<Rightarrow> if truthy v then ro\<lparr>ro_data := Some (JsonText v)\<rparr> else ro)"

text \<open>
  What a call of \<^verbatim>\<open>request\<close> leaves behind: the document (the loading indicator),
  the settings of every \<^verbatim>\<open>$.ajax\<close> call made, in order, and the delays waited for.
  One call is followed on its own: what other handlers do while it waits is not part of
  it.
\<close>

record run =
  doc :: document
  sent :: "requestOptions list"
  waits :: "int list"

text \<open>
  The loop of lines 112-153. \<open>ajax k ro\<close> is the outcome of the \<open>k\<close>-th call of
  \<^verbatim>\<open>$.ajax\<close> (counted from 0), made with the settings \<open>ro\<close>: \<open>Inr\<close> the decoded
  response, \<open>Inl\<close> the object it rejects with. The result is \<open>None\<close> when the loop ends
  without a \<^verbatim>\<open>return\<close> (the promise resolves to \<^verbatim>\<open>undefined\<close>).
\<close>

function request_loop ::
  "(string \<Rightarrow> jsval option) \<Rightarrow> (jsval \<Rightarrow> string) \<Rightarrow> (nat \<Rightarrow> requestOptions \<Rightarrow> jqXHR + jsval) \<Rightarrow>
   requestOptions \<Rightarrow> int \<Rightarrow> int \<Rightarrow> int \<Rightarrow> run \<Rightarrow> ajax_result option \<times> run" where
  "request_loop parse values_join ajax ro n delay attempt w =
     (if attempt \<le> n then
        (case ajax (length (sent w)) ro of
           Inr response \<Rightarrow>
             (Some (Success response),
              w\<lparr>sent := sent w @ [ro], doc := hideLoading Page (doc w)\<rparr>)
         | Inl e \<Rightarrow>
             (if attempt + 1 > n then
                (Some (handleError parse values_join e),
                 w\<lparr>sent := sent w @ [ro], doc := hideLoading Page (doc w)\<rparr>)
              else
                request_loop parse values_join ajax ro n delay (attempt + 1)
                  (w\<lparr>sent := sent w @ [ro], waits := waits w @ [delay]\<rparr>)))
      else (None, w))"
  by pat_completeness auto
termination
  by (relation "measure (\<lambda>(parse, values_join, ajax, ro, n, delay, attempt, w). nat (n + 1 - attempt))")
    auto

text \<open>Lines 87-92: the options with their defaults.\<close>

definition retries_of :: "AjaxHandler \<Rightarrow> options \<Rightarrow> int" where
  "retries_of this opts = (case retries opts of Some r \<Rightarrow> r | None \<Rightarrow> this_retries this)"

definition retryDelay_of :: "AjaxHandler \<Rightarrow> options \<Rightarrow> int" where
  "retryDelay_of this opts = (case retryDelay opts of Some r \<Rightarrow> r | None \<Rightarrow> this_retryDelay this)"

definition timeout_of :: "options \<Rightarrow> int" where
  "timeout_of opts = (case timeout opts of Some t \<Rightarrow> t | None \<Rightarrow> TIMEOUT)"

definition headers_of :: "options \<Rightarrow> (string \<rightharpoonup> string)" where
  "headers_of opts = (case headers opts of Some h \<Rightarrow> h | None \<Rightarrow> Map.empty)"

text \<open>The settings every attempt of one \<^verbatim>\<open>request\<close> call is made with.\<close>

definition settings_of :: "string \<Rightarrow> string \<Rightarrow> string \<Rightarrow> payload \<Rightarrow> options \<Rightarrow> requestOptions" where
  "settings_of cookie meth u dat opts =
     make_requestOptions meth u dat (timeout_of opts) (request_headers cookie (headers_of opts))"

text \<open>
  \<^verbatim>\<open>request(method, url, data, options)\<close> on the handler \<open>this\<close>, with the cookie
  string \<open>cookie\<close> and the document \<open>d\<close> it starts from.
\<close>

definition request ::
  "AjaxHandler \<Rightarrow> (string \<Rightarrow> jsval option) \<Rightarrow> (jsval \<Rightarrow> string) \<Rightarrow> (nat \<Rightarrow> requestOptions \<Rightarrow> jqXHR + jsval) \<Rightarrow>
   string \<Rightarrow> document \<Rightarrow> string \<Rightarrow> string \<Rightarrow> payload \<Rightarrow> options \<Rightarrow> ajax_result option \<times> run" where
  "request this parse values_join ajax cookie d meth u dat opts =
     request_loop parse values_join ajax (settings_of cookie meth u dat opts)
       (retries_of this opts) (retryDelay_of this opts) 0
       \<lparr>doc = showLoading Page d, sent = [], waits = []\<rparr>"

section \<open>FormUtils.serializeForm\<close>

text \<open>
  The entries of \<^verbatim>\<open>new FormData(form)\<close>: the name and the value of every field, in
  document order (text fields; a file input is not modelled).

  \<^verbatim>\<open>jsonData\<close> starts as \<^verbatim>\<open>{}\<close>: its own properties, in the order they were
  added, and its prototype. The prototype is \<^verbatim>\<open>Object.prototype\<close> (\<open>None\<close>) until a
  field named \<^verbatim>\<open>__proto__\<close> makes the loop assign an array to
  \<^verbatim>\<open>jsonData['__proto__']\<close>, which replaces the prototype by that array (\<open>Some\<close>).
  \<open>array_keys\<close> are the names \<^verbatim>\<open>Array.prototype\<close> defines in the browser at hand.
\<close>

record form_object =
  props :: "(string \<times> jsval) list"
  proto :: "jsval list option"

text \<open>What an object inherits from an array that is its prototype.\<close>

definition array_member :: "string list \<Rightarrow> jsval list \<Rightarrow> string \<Rightarrow> jsval" where
  "array_member array_keys xs key =
     (if key = ''length'' then JNum (int (length xs))
      else case array_index key of
             Some i \<Rightarrow> if i < length xs then xs ! i else JUndefined
           | None \<Rightarrow>
               if key \<in> set array_keys then JFunction (''Array.prototype.'' @ key)
               else object_member key)"

text \<open>\<^verbatim>\<open>jsonData[key]\<close>: an own property, else what the prototype chain gives.\<close>

definition get_member :: "string list \<Rightarrow> form_object \<Rightarrow> string \<Rightarrow> jsval" where
  "get_member array_keys obj key =
     (case map_of (props obj) key of
        Some v \<Rightarrow> v
      | None \<Rightarrow>
          (case proto obj of
             None \<Rightarrow> object_member key
           | Some xs \<Rightarrow> if key = ''__proto__'' then JArr xs else array_member array_keys xs key))"

text \<open>
  The three writes of the loop. An assignment makes or overwrites an own property, but
  for the key \<^verbatim>\<open>__proto__\<close> it runs the inherited setter, which takes an array for
  the new prototype and ignores a string. \<^verbatim>\<open>push\<close> changes the array it is called
  on, where it is: an own property, the prototype itself, or an element of the prototype.
\<close>

definition set_array :: "form_object \<Rightarrow> string \<Rightarrow> jsval list \<Rightarrow> form_object" where
  "set_array obj key xs =
     (if key = ''__proto__'' \<and> map_of (props obj) key = None then obj\<lparr>proto := Some xs\<rparr>
      else obj\<lparr>props := AList.update key (JArr xs) (props obj)\<rparr>)"

definition set_string :: "form_object \<Rightarrow> string \<Rightarrow> string \<Rightarrow> form_object" where
  "set_string obj key s =
     (if key = ''__proto__'' \<and> map_of (props obj) key = None then obj
      else obj\<lparr>props := AList.update key (JStr s) (props obj)\<rparr>)"

definition push_member :: "form_object \<Rightarrow> string \<Rightarrow> jsval list \<Rightarrow> jsval \<Rightarrow> form_object" where
  "push_member obj key xs v =
     (if map_of (props obj) key \<noteq> None then obj\<lparr>props := AList.update key (JArr (xs @ [v])) (props obj)\<rparr>
      else if key = ''__proto__'' then obj\<lparr>proto := Some (xs @ [v])\<rparr>
      else (case (proto obj, array_index key) of
              (Some ys, Some i) \<Rightarrow> obj\<lparr>proto := Some (ys[i := JArr (xs @ [v])])\<rparr>
            | _ \<Rightarrow> obj))"

text \<open>The body of the loop, lines 504-512.\<close>

fun serialize_step :: "string list \<Rightarrow> form_object \<Rightarrow> string \<times> string \<Rightarrow> form_object" where
  "serialize_step array_keys jsonData (key, value) =
     (if truthy (get_member array_keys jsonData key) then
        (case get_member array_keys jsonData key of
           JArr xs \<Rightarrow> push_member jsonData key xs (JStr value)
         | cur \<Rightarrow> set_array jsonData key [cur, JStr value])
      else set_string jsonData key value)"

definition serializeForm :: "string list \<Rightarrow> (string \<times> string) list \<Rightarrow> form_object" where
  "serializeForm array_keys entries =
     foldl (serialize_step array_keys) \<lparr>props = [], proto = None\<rparr> entries"

section \<open>StateManager\<close>

text \<open>
  A callback is a function object, compared by identity in \<^verbatim>\<open>unsubscribe\<close>: it is
  modelled by a number that names it. What a callback does when it is called is given by
  \<open>run\<close>: from the argument and the manager it finds, the manager it leaves (it may
  call \<^verbatim>\<open>store\<close>, \<^verbatim>\<open>subscribe\<close> and the other methods), the calls of callbacks
  that happened inside it, and whether it threw. A call is recorded as the pair of the
  callback and its argument.
\<close>

type_synonym callback = nat

datatype exception = TypeError | Thrown

text \<open>
  \<^verbatim>\<open>state\<close> is given by its own properties and its prototype (which
  \<^verbatim>\<open>store('__proto__', v)\<close> replaces), \<^verbatim>\<open>listeners\<close> by its own properties in the
  order they were added. \<^verbatim>\<open>get\<close> is not part of any property below and is left out.
\<close>

record StateManager =
  state :: "string \<rightharpoonup> jsval"
  state_proto :: jsval
  listeners :: "(string \<times> callback list) list"

type_synonym behaviour =
  "callback \<Rightarrow> jsval \<Rightarrow> StateManager \<Rightarrow> StateManager \<times> (callback \<times> jsval) list \<times> bool"

definition new_StateManager :: StateManager where
  "new_StateManager = \<lparr>state = Map.empty, state_proto = JObjectPrototype, listeners = []\<rparr>"

text \<open>
  \<^verbatim>\<open>this.listeners[key]\<close>: the array registered under the key, or something that
  \<^verbatim>\<open>Object.prototype\<close> defines (truthy, and without \<^verbatim>\<open>push\<close>, \<^verbatim>\<open>filter\<close> or
  \<^verbatim>\<open>forEach\<close>), or \<^verbatim>\<open>undefined\<close>.
\<close>

datatype slot = Own "callback list" | Inherited | Missing

definition listeners_at :: "StateManager \<Rightarrow> string \<Rightarrow> slot" where
  "listeners_at this key =
     (case map_of (listeners this) key of
        Some cbs \<Rightarrow> Own cbs
      | None \<Rightarrow> if key \<in> set object_prototype_keys then Inherited else Missing)"

text \<open>
  What an operation gives: the manager it leaves, the calls made, in order, and the
  exception it ended with, if any.
\<close>

definition manager_after :: "StateManager \<times> (callback \<times> jsval) list \<times> exception option \<Rightarrow> StateManager" where
  "manager_after r = fst r"

definition calls_made :: "StateManager \<times> (callback \<times> jsval) list \<times> exception option \<Rightarrow> (callback \<times> jsval) list" where
  "calls_made r = fst (snd r)"

definition exception_of :: "StateManager \<times> (callback \<times> jsval) list \<times> exception option \<Rightarrow> exception option" where
  "exception_of r = snd (snd r)"

text \<open>
  \<^verbatim>\<open>cbs.forEach(callback => callback(value))\<close>: the callbacks the array holds when the
  loop starts are called in order; the first one that throws ends the loop.
\<close>

fun forEach ::
  "behaviour \<Rightarrow> callback list \<Rightarrow> jsval \<Rightarrow> StateManager \<Rightarrow> StateManager \<times> (callback \<times> jsval) list \<times> exception option" where
  "forEach run [] value this = (this, [], None)"
| "forEach run (callback # rest) value this =
     (case run callback value this of
        (this, nested, threw) \<Rightarrow>
          if threw then (this, (callback, value) # nested, Some Thrown)
          else (case forEach run rest value this of
                  (this, calls, e) \<Rightarrow> (this, (callback, value) # nested @ calls, e)))"

definition publish ::
  "behaviour \<Rightarrow> StateManager \<Rightarrow> string \<Rightarrow> jsval \<Rightarrow> StateManager \<times> (callback \<times> jsval) list \<times> exception option" where
  "publish run this key value =
     (case listeners_at this key of
        Own cbs \<Rightarrow> forEach run cbs value this
      | Inherited \<Rightarrow> (this, [], Some TypeError)
      | Missing \<Rightarrow> (this, [], None))"

text \<open>\<^verbatim>\<open>this.state[key] = value\<close>; for \<^verbatim>\<open>__proto__\<close> the setter runs.\<close>

definition assign_state :: "StateManager \<Rightarrow> string \<Rightarrow> jsval \<Rightarrow> StateManager" where
  "assign_state this key value =
     (if key = ''__proto__'' then
        (if is_object value \<or> value = JNull then this\<lparr>state_proto := value\<rparr> else this)
      else this\<lparr>state := (state this)(key \<mapsto> value)\<rparr>)"

definition store ::
  "behaviour \<Rightarrow> StateManager \<Rightarrow> string \<Rightarrow> jsval \<Rightarrow> StateManager \<times> (callback \<times> jsval) list \<times> exception option" where
  "store run this key value = publish run (assign_state this key value) key value"

definition remove_state ::
  "behaviour \<Rightarrow> StateManager \<Rightarrow> string \<Rightarrow> StateManager \<times> (callback \<times> jsval) list \<times> exception option" where
  "remove_state run this key =
     publish run (this\<lparr>state := (state this)(key := None)\<rparr>) key JUndefined"

text \<open>
  The loop of \<^verbatim>\<open>clear\<close> over the keys \<^verbatim>\<open>listeners\<close> has when the loop starts; an
  exception ends it.
\<close>

fun clear_loop ::
  "behaviour \<Rightarrow> string list \<Rightarrow> StateManager \<Rightarrow> StateManager \<times> (callback \<times> jsval) list \<times> exception option" where
  "clear_loop run [] this = (this, [], None)"
| "clear_loop run (key # keys) this =
     (case publish run this key JUndefined of
        (this, calls, Some e) \<Rightarrow> (this, calls, Some e)
      | (this, calls, None) \<Rightarrow>
          (case clear_loop run keys this of
             (this, later, e) \<Rightarrow> (this, calls @ later, e)))"

definition clear ::
  "behaviour \<Rightarrow> StateManager \<Rightarrow> StateManager \<times> (callback \<times> jsval) list \<times> exception option" where
  "clear run this =
     (let this = this\<lparr>state := Map.empty, state_proto := JObjectPrototype\<rparr>
      in clear_loop run (for_in_keys (listeners this)) this)"

definition subscribe :: "StateManager \<Rightarrow> string \<Rightarrow> callback \<Rightarrow> StateManager \<times> exception option" where
  "subscribe this key callback =
     (let this =
        (if listeners_at this key = Missing
         then this\<lparr>listeners := AList.update key [] (listeners this)\<rparr>
         else this)
      in case listeners_at this key of
           Own cbs \<Rightarrow> (this\<lparr>listeners := AList.update key (cbs @ [callback]) (listeners this)\<rparr>, None)
         | Inherited \<Rightarrow> (this, Some TypeError)
         | Missing \<Rightarrow> (this, None))"

definition unsubscribe :: "StateManager \<Rightarrow> string \<Rightarrow> callback \<Rightarrow> StateManager \<times> exception option" where
  "unsubscribe this key callback =
     (case listeners_at this key of
        Own cbs \<Rightarrow>
          (this\<lparr>listeners := AList.update key (filter (\<lambda>cb. cb \<noteq> callback) cbs) (listeners this)\<rparr>,
           None)
      | Inherited \<Rightarrow> (this, Some TypeError)
      | Missing \<Rightarrow> (this, None))"

text \<open>The callbacks registered for a key, in the order of registration.\<close>

definition subscribers :: "StateManager \<Rightarrow> string \<Rightarrow> callback list" where
  "subscribers this key = (case map_of (listeners this) key of Some cbs \<Rightarrow> cbs | None \<Rightarrow> [])"

text \<open>The calls made to one callback, out of the calls an operation made.\<close>

definition calls_of :: "callback \<Rightarrow> (callback \<times> jsval) list \<Rightarrow> jsval list" where
  "calls_of cb calls = map snd (filter (\<lambda>c. fst c = cb) calls)"

text \<open>
  What the properties ask of a callback \<open>c\<close> called with \<open>v\<close>: that it returns (does not
  throw); that nothing it does leads to a call of \<open>cb\<close>; that it returns and leaves the
  manager alone.
\<close>

definition returns :: "behaviour \<Rightarrow> callback \<Rightarrow> jsval \<Rightarrow> bool" where
  "returns run c v = (\<forall>this. \<not> snd (snd (run c v this)))"

definition silent_about :: "behaviour \<Rightarrow> callback \<Rightarrow> callback \<Rightarrow> jsval \<Rightarrow> bool" where
  "silent_about run cb c v = (\<forall>this. calls_of cb (fst (snd (run c v this))) = [])"

definition returns_quietly :: "behaviour \<Rightarrow> callback \<Rightarrow> jsval \<Rightarrow> bool" where
  "returns_quietly run c v = (\<forall>this. run c v this = (this, [], False))"

section \<open>LandingHeader\<close>

text \<open>
  What the handlers touch: \<^verbatim>\<open>window.location.href\<close> (the value last assigned to
  it) and the console.
\<close>

datatype console_entry =
    ConsoleLog string jsval
  | ConsoleError string string string

record window =
  href :: jsval
  console :: "console_entry list"

definition handleLoginSuccess :: "jsval \<Rightarrow> window \<Rightarrow> window" where
  "handleLoginSuccess response w =
     (if truthy (and_prop response ''redirect_url'')
      then w\<lparr>href := and_prop response ''redirect_url''\<rparr>
      else w\<lparr>console := console w @ [ConsoleLog ''Login action successful'' response],
             href := JStr ''/auth/login''\<rparr>)"

definition handleLoginError :: "jqXHR \<Rightarrow> string \<Rightarrow> string \<Rightarrow> window \<Rightarrow> window" where
  "handleLoginError x textStatus errorThrown w =
     w\<lparr>console := console w @ [ConsoleError ''Login request failed:'' textStatus errorThrown],
       href := JStr ''/auth/login''\<rparr>"

definition handleSignupSuccess :: "jsval \<Rightarrow> window \<Rightarrow> window" where
  "handleSignupSuccess response w =
     (if truthy (and_prop response ''redirect_url'')
      then w\<lparr>href := and_prop response ''redirect_url''\<rparr>
      else w\<lparr>console := console w @ [ConsoleLog ''Signup action successful'' response],
             href := JStr ''/auth/register''\<rparr>)"

definition handleSignupError :: "jqXHR \<Rightarrow> string \<Rightarrow> string \<Rightarrow> window \<Rightarrow> window" where
  "handleSignupError x textStatus errorThrown w =
     w\<lparr>console := console w @ [ConsoleError ''Signup request failed:'' textStatus errorThrown],
       href := JStr ''/auth/register''\<rparr>"

text \<open>
  The click handlers, given the outcome of the request they send: \<open>Inr\<close> the response
  passed to \<^verbatim>\<open>done\<close>, \<open>Inl\<close> the three arguments passed to \<^verbatim>\<open>fail\<close>.
\<close>

definition handleLoginClick :: "(jqXHR \<times> string \<times> string) + jsval \<Rightarrow> window \<Rightarrow> window" where
  "handleLoginClick outcome w =
     (case outcome of
        Inr response \<Rightarrow> handleLoginSuccess response w
      | Inl (x, textStatus, errorThrown) \<Rightarrow> handleLoginError x textStatus errorThrown w)"

definition handleSignupClick :: "(jqXHR \<times> string \<times> string) + jsval \<Rightarrow> window \<Rightarrow> window" where
  "handleSignupClick outcome w =
     (case outcome of
        Inr response \<Rightarrow> handleSignupSuccess response w
      | Inl (x, textStatus, errorThrown) \<Rightarrow> handleSignupError x textStatus errorThrown w)"

section \<open>Sample inputs\<close>

text \<open>Concrete inputs, on which the theorems below are run.\<close>

definition service_unavailable :: jqXHR where
  "service_unavailable = \<lparr>responseJSON = JUndefined, responseText = None,
     statusText = Some ''Service Unavailable'', status = JNum 503\<rparr>"

definition ward_manager :: StateManager where
  "ward_manager = \<lparr>state = [''ward'' \<mapsto> JNum 3], state_proto = JObjectPrototype,
     listeners = [(''ward'', [1, 2]), (''7'', [3]), (''bed'', [2])]\<rparr>"

text \<open>Callbacks that do nothing, and callbacks of which the one named 1 throws.\<close>

definition quiet :: behaviour where
  "quiet c v this = (this, [], False)"

definition first_throws :: behaviour where
  "first_throws c v this = (this, [], c = 1)"

text \<open>
  Callbacks of which the one named 1 calls the callback named 7 with its own argument,
  and callbacks of which the one named 3 unsubscribes the callback named 2 from the key
  \<^verbatim>\<open>ward\<close>.
\<close>

definition first_calls_seventh :: behaviour where
  "first_calls_seventh c v this = (this, if c = 1 then [(7, v)] else [], False)"

definition third_unsubscribes :: behaviour where
  "third_unsubscribes c v this =
     (if c = 3 then fst (unsubscribe this ''ward'' 2) else this, [], False)"


definition basic_auth_options :: options where
  "basic_auth_options = \<lparr>retries = None, retryDelay = None, timeout = None,
     headers = Some [''Authorization'' \<mapsto> ''Basic xyz'', ''X-CSRFToken'' \<mapsto> ''mine'']\<rparr>"

text \<open>
  An error response with status 400 and the JSON body \<^verbatim>\<open>{"error":"bad"}\<close>, which
  jQuery has decoded into \<^verbatim>\<open>responseJSON\<close> as well.
\<close>

definition error_body_text :: string where
  "error_body_text = ''{'' @ [CHR 0x22] @ ''error'' @ [CHR 0x22] @ '':'' @ [CHR 0x22] @ ''bad''
     @ [CHR 0x22] @ ''}''"

definition bad_request :: jqXHR where
  "bad_request = \<lparr>responseJSON = JObj [(''error'', JStr ''bad'')],
     responseText = Some error_body_text, statusText = Some ''Bad Request'', status = JNum 400\<rparr>"

chapter \<open>Properties\<close>

section \<open>CookieManager\<close>











text \<open>
  Whatever the cookie string is, \<^verbatim>\<open>getCookie\<close> returns part of one piece of
  \<^verbatim>\<open>split(';')\<close>: a value with a \<^verbatim>\<open>;\<close> never comes back, in no browser.
\<close>

lemma getCookie_loop_no_separator:
  "\<forall>p \<in> set ps. sep \<notin> set p \<Longrightarrow> getCookie_loop nameEQ ps = Some v \<Longrightarrow> sep \<notin> set v"
proof (induction ps)
  case Nil
  then show ?case by simp
next
  case (Cons p ps)
  have "set (drop (length nameEQ) (dropWhile (\<lambda>x. x = CHR '' '') p)) \<subseteq> set p"
    by (meson in_set_dropD set_dropWhileD subsetI)
  with Cons show ?case by (auto simp: Let_def split: if_splits)
qed

lemma split_on_pieces: "\<forall>p \<in> set (split_on sep s). sep \<notin> set p"
  by (induction s) (auto split: list.splits)

lemma getCookie_no_semicolon: "getCookie cookie name = Some v \<Longrightarrow> CHR '';'' \<notin> set v"
  unfolding getCookie_def using getCookie_loop_no_separator[OF split_on_pieces] .

text \<open>\<^verbatim>\<open>setCookie\<close> writes the name and the value as they are, with no encoding.\<close>

lemma setCookie_string_parts:
  "\<exists>rest. setCookie_string toUTCString now name value days = name @ ''='' @ value @ CHR '';'' # rest"
  by (simp add: setCookie_string_def Let_def)


section \<open>AjaxHandler.handleError\<close>

text \<open>
  C2: for the statuses 401, 403, 404 and 500 the failure record carries the fixed message
  of that status and the status of the error. The switch runs last and overwrites the
  message, so this holds whatever the body is, in particular when the body is absent or
  is not JSON.
\<close>

theorem handleError_fixed_messages:
  "handleError parse values_join (e\<lparr>status := JNum 401\<rparr>) =
     Failure (JStr ''Unauthorized access. Please log in.'') (JNum 401)
   \<and> handleError parse values_join (e\<lparr>status := JNum 403\<rparr>) =
     Failure (JStr ''Access forbidden. You do not have permission to perform this action.'')
       (JNum 403)
   \<and> handleError parse values_join (e\<lparr>status := JNum 404\<rparr>) =
     Failure (JStr ''Resource not found.'') (JNum 404)
   \<and> handleError parse values_join (e\<lparr>status := JNum 500\<rparr>) =
     Failure (JStr ''Internal server error. Please try again later.'') (JNum 500)"
  by (simp add: handleError_def status_switch_def)

text \<open>
  The nested \<^verbatim>\<open>try\<close> block is dead: it is entered only after the first one threw,
  on the same text, and then it throws as well. What is left of the \<^verbatim>\<open>catch\<close> block
  is the status text or the generic message.
\<close>

lemma inner_try_dead:
  "outer_try parse txt m = None \<Longrightarrow> inner_try parse values_join txt m' = None"
  by (auto simp: outer_try_def inner_try_def split: option.splits)

lemma or_else_idem: "or_else s (or_else s m) = or_else s m"
  by (cases s) simp_all

lemma catch_block_status_text:
  assumes "responseText e = Some txt" "outer_try parse txt m = None"
  shows "catch_block parse values_join e = or_else (statusText e) generic_message"
  using assms inner_try_dead[OF assms(2), of values_join generic_message]
  by (simp add: catch_block_def Let_def or_else_idem)

lemma body_message_without_nested_branch:
  "body_message parse values_join e =
     (if truthy (and_prop (responseJSON e) ''detail'') then and_prop (responseJSON e) ''detail''
      else case responseText e of
             None \<Rightarrow> or_else (statusText e) generic_message
           | Some txt \<Rightarrow>
               if txt = [] then or_else (statusText e) generic_message
               else (case outer_try parse txt generic_message of
                       Some m \<Rightarrow> m
                     | None \<Rightarrow> or_else (statusText e) generic_message))"
  by (auto simp: body_message_def Let_def catch_block_status_text split: option.splits)

text \<open>
  C3 fails on the code: for the error response \<open>bad_request\<close>, whose body is the JSON
  text \<^verbatim>\<open>{"error":"bad"}\<close>, the fallback chain of the specification gives the
  \<^verbatim>\<open>error\<close> field, and \<^verbatim>\<open>handleError\<close> gives the generic message: the first
  \<^verbatim>\<open>try\<close> block parses the body, finds no \<^verbatim>\<open>detail\<close> and leaves the message as
  it is, and the branch that reads the \<^verbatim>\<open>error\<close> field is never reached.
\<close>

theorem handleError_error_field_lost:
  assumes "parse error_body_text = Some (JObj [(''error'', JStr ''bad'')])"
  shows "handleError parse values_join bad_request =
           Failure (JStr ''An unexpected error occurred'') (JNum 400)
       \<and> single_fallback_chain parse bad_request = JStr ''bad''"
  using assms
  by (simp add: handleError_def status_switch_def body_message_def outer_try_def bad_request_def
      error_body_text_def generic_message_def single_fallback_chain_def field_def Let_def)

theorem handleError_error_field_lost_witness:
  "handleError (\<lambda>s. if s = error_body_text then Some (JObj [(''error'', JStr ''bad'')]) else None)
       (\<lambda>v. []) bad_request = Failure (JStr ''An unexpected error occurred'') (JNum 400)
   \<and> single_fallback_chain
       (\<lambda>s. if s = error_body_text then Some (JObj [(''error'', JStr ''bad'')]) else None)
       bad_request = JStr ''bad''"
  using handleError_error_field_lost[of
      "\<lambda>s. if s = error_body_text then Some (JObj [(''error'', JStr ''bad'')]) else None" "\<lambda>v. []"]
  by simp

section \<open>AjaxHandler.request\<close>

text \<open>
  The loop when every attempt it makes fails: it stops after the attempts numbered
  \<open>attempt\<close> to \<open>n\<close>, having waited \<open>delay\<close> after each but the last, and hands the
  last error to \<^verbatim>\<open>handleError\<close>.
\<close>

lemma request_loop_all_fail:
  assumes "0 \<le> attempt" "attempt \<le> n"
    and "\<forall>k. length (sent w) \<le> k \<and> k \<le> length (sent w) + nat (n - attempt) \<longrightarrow> ajax k ro = Inl (errs k)"
  shows "request_loop parse vj ajax ro n delay attempt w =
     (Some (handleError parse vj (errs (length (sent w) + nat (n - attempt)))),
      w\<lparr>sent := sent w @ replicate (nat (n - attempt) + 1) ro,
        waits := waits w @ replicate (nat (n - attempt)) delay,
        doc := hideLoading Page (doc w)\<rparr>)"
  using assms
proof (induction "nat (n - attempt)" arbitrary: attempt w)
  case 0
  then have eq: "attempt = n" by simp
  have "ajax (length (sent w)) ro = Inl (errs (length (sent w)))"
    using "0.prems"(3) by simp
  then show ?case using eq by (simp add: request_loop.simps[of _ _ _ _ n _ n])
next
  case (Suc m)
  then have lt: "attempt < n" and m: "m = nat (n - (attempt + 1))" by linarith+
  have a: "ajax (length (sent w)) ro = Inl (errs (length (sent w)))"
    using Suc.prems(3) by simp
  let ?w = "w\<lparr>sent := sent w @ [ro], waits := waits w @ [delay]\<rparr>"
  have ih: "request_loop parse vj ajax ro n delay (attempt + 1) ?w =
     (Some (handleError parse vj (errs (length (sent ?w) + nat (n - (attempt + 1))))),
      ?w\<lparr>sent := sent ?w @ replicate (nat (n - (attempt + 1)) + 1) ro,
        waits := waits ?w @ replicate (nat (n - (attempt + 1))) delay,
        doc := hideLoading Page (doc ?w)\<rparr>)"
  proof (rule Suc.hyps(1)[OF m])
    show "0 \<le> attempt + 1" using Suc.prems by simp
    show "attempt + 1 \<le> n" using lt by simp
    show "\<forall>k. length (sent ?w) \<le> k \<and> k \<le> length (sent ?w) + nat (n - (attempt + 1)) \<longrightarrow> ajax k ro = Inl (errs k)"
      using Suc.prems(3) lt by auto
  qed
  have n1: "nat (n - attempt) = Suc (nat (n - (attempt + 1)))" using lt by simp
  show ?case
    apply (subst request_loop.simps)
    using lt a ih n1 by (simp add: replicate_append_same)
qed

text \<open>
  C1: when every attempt fails, \<^verbatim>\<open>request\<close> calls \<^verbatim>\<open>$.ajax\<close> once and then
  again exactly \<open>retries\<close> times, each time with the same settings, waits the same
  \<open>retryDelay\<close> between two attempts (so \<open>retries\<close> waits, none after the last attempt),
  and only then returns the failure record that \<^verbatim>\<open>handleError\<close> builds from the last
  error; the loading overlay is shown before and hidden after. The errors \<open>errs k\<close> are
  arbitrary: no status is treated differently. \<open>retries\<close> is a count, so it is not
  negative.
\<close>

theorem request_retries_exactly:
  assumes "0 \<le> retries_of this opts"
    and "\<forall>k \<le> nat (retries_of this opts). ajax k (settings_of cookie meth u dat opts) = Inl (errs k)"
  shows "request this parse values_join ajax cookie d meth u dat opts =
     (Some (handleError parse values_join (errs (nat (retries_of this opts)))),
      \<lparr>doc = hideLoading Page (showLoading Page d),
       sent = replicate (nat (retries_of this opts) + 1) (settings_of cookie meth u dat opts),
       waits = replicate (nat (retries_of this opts)) (retryDelay_of this opts)\<rparr>)"
proof -
  let ?w = "\<lparr>doc = showLoading Page d, sent = [], waits = []\<rparr>"
  have "\<forall>k. length (sent ?w) \<le> k \<and> k \<le> length (sent ?w) + nat (retries_of this opts - 0) \<longrightarrow>
      ajax k (settings_of cookie meth u dat opts) = Inl (errs k)"
    using assms(2) by simp
  then have "request_loop parse values_join ajax (settings_of cookie meth u dat opts)
      (retries_of this opts) (retryDelay_of this opts) 0 ?w =
     (Some (handleError parse values_join (errs (length (sent ?w) + nat (retries_of this opts - 0)))),
      ?w\<lparr>sent := sent ?w @ replicate (nat (retries_of this opts - 0) + 1) (settings_of cookie meth u dat opts),
        waits := waits ?w @ replicate (nat (retries_of this opts - 0)) (retryDelay_of this opts),
        doc := hideLoading Page (doc ?w)\<rparr>)"
    using assms(1) by (intro request_loop_all_fail) simp_all
  then
  show ?thesis by (simp add: request_def)
qed

theorem request_retries_exactly_witness:
  "request new_AjaxHandler (\<lambda>s. None) (\<lambda>v. []) (\<lambda>k ro. Inl service_unavailable) []
       \<lparr>head = [], body = []\<rparr> ''GET'' ''/patients/'' (Plain JNull) no_options =
     (Some (Failure (JStr ''Service Unavailable'') (JNum 503)),
      \<lparr>doc = \<lparr>head = [spin_style], body = []\<rparr>,
       sent = replicate 4 (settings_of [] ''GET'' ''/patients/'' (Plain JNull) no_options),
       waits = [1000, 1000, 1000]\<rparr>)"
proof -
  have r: "retries_of new_AjaxHandler no_options = 3"
    by (simp add: retries_of_def new_AjaxHandler_def no_options_def)
  have d: "retryDelay_of new_AjaxHandler no_options = 1000"
    by (simp add: retryDelay_of_def new_AjaxHandler_def no_options_def)
  have h: "handleError (\<lambda>s. None) (\<lambda>v. []) service_unavailable =
      Failure (JStr ''Service Unavailable'') (JNum 503)"
    by (simp add: handleError_def status_switch_def body_message_def service_unavailable_def
        generic_message_def)
  have l: "hideLoading Page (showLoading Page \<lparr>head = [], body = []\<rparr>) = \<lparr>head = [spin_style], body = []\<rparr>"
    by (simp add: hideLoading_def showLoading_def getElementById_def remove_element_def
        overlay_def spin_style_def)
  show ?thesis
    using request_retries_exactly[of new_AjaxHandler no_options "\<lambda>k ro. Inl service_unavailable"
        "[]" "''GET''" "''/patients/''" "Plain JNull" "\<lambda>k. service_unavailable"
        "\<lambda>s. None" "\<lambda>v. []" "\<lparr>head = [], body = []\<rparr>"]
    by (simp add: r d h l numeral_eq_Suc)
qed

text \<open>
  A negative \<open>retries\<close> is no count: the loop body never runs, no attempt is made, and the
  call ends without a record and with the overlay still shown.
\<close>

lemma request_negative_retries:
  "retries_of this opts < 0 \<Longrightarrow>
   request this parse values_join ajax cookie d meth u dat opts =
     (None, \<lparr>doc = showLoading Page d, sent = [], waits = []\<rparr>)"
  by (simp add: request_def)

text \<open>Every call of \<^verbatim>\<open>$.ajax\<close> that \<^verbatim>\<open>request\<close> makes carries the same settings.\<close>

lemma sent_request_loop:
  "set (sent (snd (request_loop parse vj ajax ro n delay attempt w))) \<subseteq> set (sent w) \<union> {ro}"
proof (induction parse vj ajax ro n delay attempt w rule: request_loop.induct)
  case (1 parse vj ajax ro n delay attempt w)
  show ?case
  proof (cases "attempt \<le> n")
    case False
    then show ?thesis by (auto simp: request_loop.simps[of _ _ _ _ n _ attempt])
  next
    case le: True
    show ?thesis
    proof (cases "ajax (length (sent w)) ro")
      case (Inr response)
      with le show ?thesis by (auto simp: request_loop.simps[of _ _ _ _ n _ attempt])
    next
      case (Inl e)
      show ?thesis
      proof (cases "attempt + 1 > n")
        case True
        with le Inl show ?thesis by (auto simp: request_loop.simps[of _ _ _ _ n _ attempt])
      next
        case False
        from "1.IH"[OF le Inl False] le Inl False show ?thesis
          by (subst request_loop.simps) auto
      qed
    qed
  qed
qed

lemma sent_request:
  "ro \<in> set (sent (snd (request this parse vj ajax cookie d meth u dat opts))) \<Longrightarrow>
   ro = settings_of cookie meth u dat opts"
  using sent_request_loop[of parse vj ajax "settings_of cookie meth u dat opts"
      "retries_of this opts" "retryDelay_of this opts" 0
      "\<lparr>doc = showLoading Page d, sent = [], waits = []\<rparr>"]
  by (auto simp: request_def)

lemma headers_settings_of:
  "ro_headers (settings_of cookie meth u dat opts) = request_headers cookie (headers_of opts)"
  by (cases dat) (simp_all add: settings_of_def make_requestOptions_def Let_def)

text \<open>
  C10, as amended: in every call of \<^verbatim>\<open>$.ajax\<close> that \<^verbatim>\<open>request\<close> makes, the
  headers are \<^verbatim>\<open>CONFIG.HEADERS\<close> overridden by the caller's headers, except that a
  token cookie that is present and not empty overrides both: \<^verbatim>\<open>Authorization\<close> is
  \<^verbatim>\<open>Bearer\<close> and the token, \<^verbatim>\<open>X-CSRFToken\<close> is the CSRF cookie. With a missing
  or an empty cookie the header keeps what the caller or the defaults gave it.
\<close>

theorem request_headers_sent:
  assumes "ro \<in> set (sent (snd (request this parse vj ajax cookie d meth u dat opts)))"
  shows "(\<forall>t. getCookie cookie AUTH_TOKEN_KEY = Some t \<and> t \<noteq> [] \<longrightarrow>
            ro_headers ro ''Authorization'' = Some (''Bearer '' @ t))
       \<and> (\<forall>c. getCookie cookie ''csrftoken'' = Some c \<and> c \<noteq> [] \<longrightarrow>
            ro_headers ro ''X-CSRFToken'' = Some c)
       \<and> (getCookie cookie AUTH_TOKEN_KEY \<in> {None, Some []} \<longrightarrow>
            ro_headers ro ''Authorization'' = (HEADERS ++ headers_of opts) ''Authorization'')
       \<and> (getCookie cookie ''csrftoken'' \<in> {None, Some []} \<longrightarrow>
            ro_headers ro ''X-CSRFToken'' = (HEADERS ++ headers_of opts) ''X-CSRFToken'')
       \<and> (\<forall>name. name \<noteq> ''Authorization'' \<and> name \<noteq> ''X-CSRFToken'' \<longrightarrow>
            ro_headers ro name = (HEADERS ++ headers_of opts) name)"
proof -
  have "ro_headers ro = request_headers cookie (headers_of opts)"
    using sent_request[OF assms] by (simp add: headers_settings_of)
  then show ?thesis
    by (auto simp: request_headers_def with_token_def Let_def split: option.splits)
qed

theorem request_headers_sent_witness:
  "map (\<lambda>ro. (ro_headers ro ''Authorization'', ro_headers ro ''X-CSRFToken'', ro_headers ro ''Accept''))
     (sent (snd (request new_AjaxHandler (\<lambda>s. None) (\<lambda>v. []) (\<lambda>k ro. Inr JNull)
        ''csrftoken=abc; hms_auth_token=tok'' \<lparr>head = [], body = []\<rparr> ''GET'' ''/patients/''
        (Plain JNull) basic_auth_options)))
   = [(Some ''Bearer tok'', Some ''abc'', Some ''application/json'')]"
proof -
  let ?c = "''csrftoken=abc; hms_auth_token=tok''"
  let ?ro = "settings_of ?c ''GET'' ''/patients/'' (Plain JNull) basic_auth_options"
  have s: "sent (snd (request new_AjaxHandler (\<lambda>s. None) (\<lambda>v. []) (\<lambda>k ro. Inr JNull)
        ?c \<lparr>head = [], body = []\<rparr> ''GET'' ''/patients/'' (Plain JNull) basic_auth_options)) = [?ro]"
    by (simp add: request_def retries_of_def basic_auth_options_def new_AjaxHandler_def)
  have t: "getCookie ?c AUTH_TOKEN_KEY = Some ''tok''"
    by (simp add: getCookie_def AUTH_TOKEN_KEY_def starts_with_def)
  have c: "getCookie ?c ''csrftoken'' = Some ''abc''"
    by (simp add: getCookie_def starts_with_def)
  have a: "(HEADERS ++ headers_of basic_auth_options) ''Accept'' = Some ''application/json''"
    by (simp add: HEADERS_def headers_of_def basic_auth_options_def)
  have "?ro \<in> set (sent (snd (request new_AjaxHandler (\<lambda>s. None) (\<lambda>v. []) (\<lambda>k ro. Inr JNull)
        ?c \<lparr>head = [], body = []\<rparr> ''GET'' ''/patients/'' (Plain JNull) basic_auth_options)))"
    by (simp only: s) simp
  from request_headers_sent[OF this] t c a show ?thesis
    by (simp only: s) simp
qed

text \<open>
  The token cookie is present with an empty value: \<^verbatim>\<open>if (token)\<close> skips it, and the
  caller's \<^verbatim>\<open>Authorization\<close> header is sent.
\<close>

theorem empty_token_counterexample:
  "getCookie ''hms_auth_token='' AUTH_TOKEN_KEY = Some []
   \<and> map (\<lambda>ro. ro_headers ro ''Authorization'')
       (sent (snd (request new_AjaxHandler (\<lambda>s. None) (\<lambda>v. []) (\<lambda>k ro. Inr JNull)
          ''hms_auth_token='' \<lparr>head = [], body = []\<rparr> ''GET'' ''/patients/''
          (Plain JNull) basic_auth_options)))
     = [Some ''Basic xyz'']"
proof -
  have t: "getCookie ''hms_auth_token='' AUTH_TOKEN_KEY = Some []"
    by (simp add: getCookie_def AUTH_TOKEN_KEY_def starts_with_def)
  have c: "getCookie ''hms_auth_token='' ''csrftoken'' = None"
    by (simp add: getCookie_def starts_with_def)
  have "ro_headers (settings_of ''hms_auth_token='' ''GET'' ''/patients/'' (Plain JNull) basic_auth_options)
      ''Authorization'' = Some ''Basic xyz''"
    by (simp add: settings_of_def make_requestOptions_def request_headers_def with_token_def t c
        HEADERS_def headers_of_def basic_auth_options_def)
  then show ?thesis
    by (simp add: t request_def retries_of_def basic_auth_options_def new_AjaxHandler_def)
qed

section \<open>StateManager\<close>

text \<open>
  Under a key that \<^verbatim>\<open>Object.prototype\<close> does not define, \<^verbatim>\<open>publish\<close> runs
  \<^verbatim>\<open>forEach\<close> over the subscribers of the key; under one that it defines, and that
  has no subscribers of its own, it throws a TypeError.
\<close>

lemma listeners_at_subscribers:
  "key \<notin> set object_prototype_keys \<or> map_of (listeners this) key \<noteq> None \<Longrightarrow>
   publish run this key v = forEach run (subscribers this key) v this"
  by (auto simp: publish_def listeners_at_def subscribers_def split: option.splits)

lemma publish_inherited:
  "key \<in> set object_prototype_keys \<Longrightarrow> map_of (listeners this) key = None \<Longrightarrow>
   publish run this key v = (this, [], Some TypeError)"
  by (simp add: publish_def listeners_at_def)

lemma subscribers_assign_state [simp]: "subscribers (assign_state this k v) k' = subscribers this k'"
  by (simp add: assign_state_def subscribers_def)

lemma listeners_assign_state [simp]: "listeners (assign_state this k v) = listeners this"
  by (simp add: assign_state_def)

lemma subscribers_subscribe:
  "k \<notin> set object_prototype_keys \<Longrightarrow>
   subscribers (fst (subscribe this k cb)) k' =
     (if k' = k then subscribers this k @ [cb] else subscribers this k')"
  by (simp add: subscribers_def subscribe_def listeners_at_def update_conv' Let_def
      split: option.splits)

lemma subscribers_unsubscribe:
  "subscribers (fst (unsubscribe this k cb)) k' =
     (if k' = k then filter (\<lambda>c. c \<noteq> cb) (subscribers this k) else subscribers this k')"
  by (simp add: subscribers_def unsubscribe_def listeners_at_def update_conv'
      split: option.splits)

lemma unsubscribe_inherited:
  "map_of (listeners (fst (unsubscribe this k cb))) k = None \<longleftrightarrow> map_of (listeners this) k = None"
  by (simp add: unsubscribe_def listeners_at_def update_conv' split: option.splits)

lemma calls_of_append: "calls_of cb (xs @ ys) = calls_of cb xs @ calls_of cb ys"
  by (simp add: calls_of_def)

lemma calls_of_Cons: "calls_of cb ((c, v) # xs) = (if c = cb then v # calls_of cb xs else calls_of cb xs)"
  by (simp add: calls_of_def)

lemma calls_of_Nil: "calls_of cb [] = []"
  by (simp add: calls_of_def)

text \<open>What \<^verbatim>\<open>forEach\<close> does with callbacks that behave.\<close>

lemma forEach_silent:
  "\<forall>c \<in> set cs. c \<noteq> cb \<and> silent_about run cb c v \<Longrightarrow>
   calls_of cb (calls_made (forEach run cs v this)) = []"
proof (induction cs arbitrary: this)
  case Nil
  then show ?case by (simp add: calls_made_def calls_of_Nil)
next
  case (Cons c cs)
  obtain m nested threw where r: "run c v this = (m, nested, threw)" by (cases "run c v this")
  from Cons.prems have "silent_about run cb c v" and ne: "c \<noteq> cb" by simp_all
  then have n: "calls_of cb nested = []" using r by (auto simp: silent_about_def dest: spec[of _ this])
  obtain m' calls e where f: "forEach run cs v m = (m', calls, e)" by (cases "forEach run cs v m")
  have "calls_of cb calls = []"
    using Cons.IH[of m] Cons.prems f by (simp add: calls_made_def)
  then show ?case using r f n ne
    by (simp add: calls_made_def calls_of_Cons calls_of_append)
qed

lemma forEach_once:
  "cb \<notin> set cs \<Longrightarrow> \<forall>c \<in> set cs. returns run c v \<and> silent_about run cb c v \<Longrightarrow>
   silent_about run cb cb v \<Longrightarrow>
   calls_of cb (calls_made (forEach run (cs @ [cb]) v this)) = [v]"
proof (induction cs arbitrary: this)
  case Nil
  obtain m nested threw where r: "run cb v this = (m, nested, threw)" by (cases "run cb v this")
  from Nil.prems have "calls_of cb nested = []"
    using r by (auto simp: silent_about_def dest: spec[of _ this])
  then show ?case using r by (simp add: calls_made_def calls_of_Cons calls_of_Nil)
next
  case (Cons c cs)
  obtain m nested threw where r: "run c v this = (m, nested, threw)" by (cases "run c v this")
  from Cons.prems have ne: "c \<noteq> cb" and ret: "returns run c v" and sil: "silent_about run cb c v"
    by auto
  have t: "\<not> threw" using ret r by (auto simp: returns_def dest: spec[of _ this])
  have n: "calls_of cb nested = []" using sil r by (auto simp: silent_about_def dest: spec[of _ this])
  obtain m' calls e where f: "forEach run (cs @ [cb]) v m = (m', calls, e)"
    by (cases "forEach run (cs @ [cb]) v m")
  have "calls_of cb calls = [v]"
    using Cons.IH[of m] Cons.prems f by (simp add: calls_made_def)
  then show ?case using r f n ne t
    by (simp add: calls_made_def calls_of_Cons calls_of_append)
qed

lemma forEach_quietly:
  "\<forall>c \<in> set cs. returns_quietly run c v \<Longrightarrow>
   forEach run cs v this = (this, map (\<lambda>cb. (cb, v)) cs, None)"
  by (induction cs) (simp_all add: returns_quietly_def)

lemma silent_about_quiet: "silent_about quiet cb c v"
  by (simp add: silent_about_def quiet_def calls_of_def)

lemma returns_quiet: "returns quiet c v"
  by (simp add: returns_def quiet_def)

lemma returns_quietly_quiet: "returns_quietly quiet c v"
  by (simp add: returns_quietly_def quiet_def)

lemma subscribers_new: "subscribers new_StateManager k = []"
  by (simp add: subscribers_def new_StateManager_def)

lemma store_calls:
  "k \<notin> set object_prototype_keys \<or> map_of (listeners this) k \<noteq> None \<Longrightarrow>
   store run this k v = forEach run (subscribers this k) v (assign_state this k v)"
  using listeners_at_subscribers[of k "assign_state this k v" run v]
  by (simp add: store_def)

text \<open>
  C6, as amended. First half: when \<open>k\<close> is not a name that \<^verbatim>\<open>Object.prototype\<close>
  defines, \<open>cb\<close> is not yet subscribed to \<open>k\<close>, the callbacks already subscribed to
  \<open>k\<close> return, and neither they nor \<open>cb\<close> cause a further call of \<open>cb\<close>, then after
  \<^verbatim>\<open>subscribe(k, cb)\<close> a \<^verbatim>\<open>store(k, v)\<close> calls \<open>cb\<close> exactly once, with \<open>v\<close>.
  Second half, on any manager: after \<^verbatim>\<open>unsubscribe(k, cb)\<close> a \<^verbatim>\<open>store\<close> on \<open>k\<close>
  does not call \<open>cb\<close> at all, however often \<open>cb\<close> was subscribed, as long as no other
  subscriber of \<open>k\<close> causes a call of \<open>cb\<close> itself.
\<close>

theorem subscribe_store_unsubscribe:
  "(k \<notin> set object_prototype_keys \<and> cb \<notin> set (subscribers this k)
      \<and> (\<forall>c \<in> set (subscribers this k). returns run c v \<and> silent_about run cb c v)
      \<and> silent_about run cb cb v
     \<longrightarrow> calls_of cb (calls_made (store run (fst (subscribe this k cb)) k v)) = [v])
   \<and> ((\<forall>c \<in> set (subscribers that k). c \<noteq> cb \<longrightarrow> silent_about run cb c w)
     \<longrightarrow> calls_of cb (calls_made (store run (fst (unsubscribe that k cb)) k w)) = [])"
proof (intro conjI impI)
  assume a: "k \<notin> set object_prototype_keys \<and> cb \<notin> set (subscribers this k)
      \<and> (\<forall>c \<in> set (subscribers this k). returns run c v \<and> silent_about run cb c v)
      \<and> silent_about run cb cb v"
  then have "store run (fst (subscribe this k cb)) k v =
      forEach run (subscribers this k @ [cb]) v (assign_state (fst (subscribe this k cb)) k v)"
    by (simp add: store_calls subscribers_subscribe)
  then show "calls_of cb (calls_made (store run (fst (subscribe this k cb)) k v)) = [v]"
    using a by (simp add: forEach_once)
next
  assume a: "\<forall>c \<in> set (subscribers that k). c \<noteq> cb \<longrightarrow> silent_about run cb c w"
  let ?m = "fst (unsubscribe that k cb)"
  show "calls_of cb (calls_made (store run ?m k w)) = []"
  proof (cases "k \<in> set object_prototype_keys \<and> map_of (listeners that) k = None")
    case True
    then have "map_of (listeners (assign_state ?m k w)) k = None"
      by (simp add: unsubscribe_inherited)
    with True have "store run ?m k w = (assign_state ?m k w, [], Some TypeError)"
      by (simp add: store_def publish_inherited)
    then show ?thesis by (simp add: calls_made_def calls_of_Nil)
  next
    case False
    then have "k \<notin> set object_prototype_keys \<or> map_of (listeners ?m) k \<noteq> None"
      by (auto simp: unsubscribe_inherited)
    then have "store run ?m k w =
        forEach run (filter (\<lambda>c. c \<noteq> cb) (subscribers that k)) w (assign_state ?m k w)"
      by (simp add: store_calls subscribers_unsubscribe)
    then show ?thesis using a by (simp add: forEach_silent)
  qed
qed

theorem subscribe_store_unsubscribe_witness:
  "calls_of 7 (calls_made (store quiet (fst (subscribe new_StateManager ''patient'' 7))
       ''patient'' (JNum 42))) = [JNum 42]
   \<and> calls_of 7 (calls_made (store quiet
       (fst (unsubscribe
          (manager_after (store quiet (fst (subscribe new_StateManager ''patient'' 7))
             ''patient'' (JNum 42)))
          ''patient'' 7))
       ''patient'' (JNum 43))) = []"
  using subscribe_store_unsubscribe[of "''patient''" 7 new_StateManager quiet "JNum 42"
      "manager_after (store quiet (fst (subscribe new_StateManager ''patient'' 7))
         ''patient'' (JNum 42))" "JNum 43"]
  by (simp add: silent_about_quiet returns_quiet subscribers_new object_prototype_keys_def)

text \<open>
  Ways in which \<^verbatim>\<open>store\<close> after \<^verbatim>\<open>subscribe(k, cb)\<close> does not call \<open>cb\<close>
  exactly once: \<open>cb\<close> was subscribed before (\<^verbatim>\<open>subscribe\<close> pushes without
  looking) and is called twice; the key is \<^verbatim>\<open>constructor\<close>, for which
  \<^verbatim>\<open>subscribe\<close> and \<^verbatim>\<open>store\<close> throw a TypeError and nothing is called; an
  earlier subscriber throws, which ends \<^verbatim>\<open>forEach\<close> before \<open>cb\<close> is reached; an
  earlier subscriber calls \<open>cb\<close> itself, so that \<open>cb\<close> is called twice, and once
  after \<^verbatim>\<open>unsubscribe(k, cb)\<close>.
\<close>

theorem subscribe_counterexample:
  "calls_of 7 (calls_made (store quiet
       (fst (subscribe (fst (subscribe new_StateManager ''patient'' 7)) ''patient'' 7))
       ''patient'' (JNum 42))) = [JNum 42, JNum 42]
   \<and> snd (subscribe new_StateManager ''constructor'' 7) = Some TypeError
   \<and> calls_made (store quiet (fst (subscribe new_StateManager ''constructor'' 7))
       ''constructor'' (JNum 42)) = []
   \<and> exception_of (store quiet (fst (subscribe new_StateManager ''constructor'' 7))
       ''constructor'' (JNum 42)) = Some TypeError
   \<and> calls_made (store first_throws
       (fst (subscribe (fst (subscribe new_StateManager ''patient'' 1)) ''patient'' 7))
       ''patient'' (JNum 42)) = [(1, JNum 42)]
   \<and> exception_of (store first_throws
       (fst (subscribe (fst (subscribe new_StateManager ''patient'' 1)) ''patient'' 7))
       ''patient'' (JNum 42)) = Some Thrown
   \<and> calls_of 7 (calls_made (store first_calls_seventh
       (fst (subscribe (fst (subscribe new_StateManager ''patient'' 1)) ''patient'' 7))
       ''patient'' (JNum 42))) = [JNum 42, JNum 42]
   \<and> calls_of 7 (calls_made (store first_calls_seventh
       (fst (unsubscribe
          (fst (subscribe (fst (subscribe new_StateManager ''patient'' 1)) ''patient'' 7))
          ''patient'' 7))
       ''patient'' (JNum 42))) = [JNum 42]"
  by (simp add: store_def publish_def subscribe_def unsubscribe_def listeners_at_def
      assign_state_def new_StateManager_def object_prototype_keys_def quiet_def
      first_throws_def first_calls_seventh_def calls_made_def exception_of_def calls_of_def
      Let_def)

lemma clear_loop_quietly:
  "set keys \<subseteq> fst ` set (listeners this) \<Longrightarrow>
   \<forall>key \<in> set keys. \<forall>c \<in> set (subscribers this key). returns_quietly run c JUndefined \<Longrightarrow>
   clear_loop run keys this =
     (this, concat (map (\<lambda>key. map (\<lambda>cb. (cb, JUndefined)) (subscribers this key)) keys), None)"
proof (induction keys)
  case Nil
  then show ?case by simp
next
  case (Cons key keys)
  from Cons.prems(1) have "map_of (listeners this) key \<noteq> None"
    by (simp add: map_of_eq_None_iff)
  then have "publish run this key JUndefined = forEach run (subscribers this key) JUndefined this"
    by (simp add: listeners_at_subscribers)
  also have "\<dots> = (this, map (\<lambda>cb. (cb, JUndefined)) (subscribers this key), None)"
    using Cons.prems(2) by (simp add: forEach_quietly)
  finally show ?case using Cons by simp
qed

lemma set_for_in_keys: "set (for_in_keys obj) = fst ` set obj"
  by (auto simp: for_in_keys_def Let_def)

lemma distinct_for_in_keys: "distinct (map fst obj) \<Longrightarrow> distinct (for_in_keys obj)"
  by (auto simp: for_in_keys_def Let_def)

text \<open>
  C7, as amended: when every registered callback returns and leaves the manager alone,
  \<^verbatim>\<open>clear()\<close> leaves the state empty and calls, key by key, every subscriber of the
  key with \<^verbatim>\<open>undefined\<close>, once for each time it was subscribed to the key (so
  exactly once unless it was subscribed to that key again); every key of
  \<^verbatim>\<open>listeners\<close> is visited, and visited once. \<^verbatim>\<open>remove(key)\<close>, for a key that
  \<^verbatim>\<open>Object.prototype\<close> does not define and under the same condition on the
  subscribers of the key, takes the key out of the state and calls them likewise.
\<close>

theorem clear_and_remove_notify:
  "((\<forall>key \<in> fst ` set (listeners this). \<forall>c \<in> set (subscribers this key).
        returns_quietly run c JUndefined)
     \<longrightarrow> clear run this =
         (this\<lparr>state := Map.empty, state_proto := JObjectPrototype\<rparr>,
          concat (map (\<lambda>key. map (\<lambda>cb. (cb, JUndefined)) (subscribers this key))
                    (for_in_keys (listeners this))),
          None))
   \<and> set (for_in_keys (listeners this)) = fst ` set (listeners this)
   \<and> (distinct (map fst (listeners this)) \<longrightarrow> distinct (for_in_keys (listeners this)))
   \<and> (k \<notin> set object_prototype_keys
        \<and> (\<forall>c \<in> set (subscribers this k). returns_quietly run c JUndefined)
     \<longrightarrow> remove_state run this k =
         (this\<lparr>state := (state this)(k := None)\<rparr>,
          map (\<lambda>cb. (cb, JUndefined)) (subscribers this k), None))"
proof (intro conjI impI)
  assume a: "\<forall>key \<in> fst ` set (listeners this). \<forall>c \<in> set (subscribers this key).
      returns_quietly run c JUndefined"
  let ?m = "this\<lparr>state := Map.empty, state_proto := JObjectPrototype\<rparr>"
  have s: "subscribers ?m = subscribers this" by (simp add: subscribers_def fun_eq_iff)
  have "clear_loop run (for_in_keys (listeners ?m)) ?m =
      (?m, concat (map (\<lambda>key. map (\<lambda>cb. (cb, JUndefined)) (subscribers ?m key))
                     (for_in_keys (listeners ?m))), None)"
    using a by (intro clear_loop_quietly) (simp_all add: set_for_in_keys s)
  then show "clear run this =
      (?m, concat (map (\<lambda>key. map (\<lambda>cb. (cb, JUndefined)) (subscribers this key))
                     (for_in_keys (listeners this))), None)"
    by (simp add: clear_def Let_def s)
next
  show "set (for_in_keys (listeners this)) = fst ` set (listeners this)"
    by (rule set_for_in_keys)
next
  assume "distinct (map fst (listeners this))"
  then show "distinct (for_in_keys (listeners this))" by (rule distinct_for_in_keys)
next
  assume a: "k \<notin> set object_prototype_keys
      \<and> (\<forall>c \<in> set (subscribers this k). returns_quietly run c JUndefined)"
  let ?m = "this\<lparr>state := (state this)(k := None)\<rparr>"
  have s: "subscribers ?m = subscribers this" by (simp add: subscribers_def fun_eq_iff)
  have "publish run ?m k JUndefined = forEach run (subscribers ?m k) JUndefined ?m"
    using a by (simp add: listeners_at_subscribers)
  then show "remove_state run this k =
      (?m, map (\<lambda>cb. (cb, JUndefined)) (subscribers this k), None)"
    using a by (simp add: remove_state_def s forEach_quietly)
qed

theorem clear_and_remove_notify_witness:
  "clear quiet ward_manager =
     (ward_manager\<lparr>state := Map.empty, state_proto := JObjectPrototype\<rparr>,
      [(3, JUndefined), (1, JUndefined), (2, JUndefined), (2, JUndefined)], None)
   \<and> distinct (for_in_keys (listeners ward_manager))
   \<and> remove_state quiet ward_manager ''ward'' =
     (ward_manager\<lparr>state := (state ward_manager)(''ward'' := None)\<rparr>,
      [(1, JUndefined), (2, JUndefined)], None)"
proof -
  have i: "array_index ''7'' = Some 7" "array_index ''ward'' = None" "array_index ''bed'' = None"
    by (simp_all add: array_index_def digit_value_def)
  have k: "for_in_keys (listeners ward_manager) = [''7'', ''ward'', ''bed'']"
    by (simp add: for_in_keys_def ward_manager_def i)
  have s: "subscribers ward_manager ''7'' = [3]" "subscribers ward_manager ''ward'' = [1, 2]"
    "subscribers ward_manager ''bed'' = [2]"
    by (simp_all add: subscribers_def ward_manager_def)
  have d: "distinct (map fst (listeners ward_manager))"
    by (simp add: ward_manager_def)
  have p: "''ward'' \<notin> set object_prototype_keys"
    by (simp add: object_prototype_keys_def)
  from clear_and_remove_notify[of ward_manager quiet "''ward''"] d p show ?thesis
    by (simp add: returns_quietly_quiet k s)
qed

text \<open>
  A callback subscribed twice to a key is called twice by \<^verbatim>\<open>clear\<close>;
  \<^verbatim>\<open>remove('toString')\<close> calls nobody and throws a TypeError; when the callback
  named 1 throws, \<^verbatim>\<open>clear\<close> stops there, and the callback named 2, subscribed to two
  keys, is never called; and when the callback named 3, called first, unsubscribes the
  callback named 2 from the key \<^verbatim>\<open>ward\<close>, that subscriber of \<^verbatim>\<open>ward\<close> is not
  called for it.
\<close>

theorem clear_remove_counterexample:
  "calls_made (clear quiet
       (fst (subscribe (fst (subscribe new_StateManager ''ward'' 1)) ''ward'' 1)))
     = [(1, JUndefined), (1, JUndefined)]
   \<and> calls_made (remove_state quiet ward_manager ''toString'') = []
   \<and> exception_of (remove_state quiet ward_manager ''toString'') = Some TypeError
   \<and> calls_made (clear first_throws ward_manager) = [(3, JUndefined), (1, JUndefined)]
   \<and> exception_of (clear first_throws ward_manager) = Some Thrown
   \<and> calls_made (clear third_unsubscribes ward_manager)
     = [(3, JUndefined), (1, JUndefined), (2, JUndefined)]"
proof -
  have i: "array_index ''7'' = Some 7" "array_index ''ward'' = None" "array_index ''bed'' = None"
    by (simp_all add: array_index_def digit_value_def)
  have k: "for_in_keys (listeners ward_manager) = [''7'', ''ward'', ''bed'']"
    by (simp add: for_in_keys_def ward_manager_def i)
  have twice: "fst (subscribe (fst (subscribe new_StateManager ''ward'' 1)) ''ward'' 1)
      = new_StateManager\<lparr>listeners := [(''ward'', [1, 1])]\<rparr>"
    by (simp add: subscribe_def listeners_at_def new_StateManager_def object_prototype_keys_def
        Let_def)
  have a: "calls_made (clear quiet (new_StateManager\<lparr>listeners := [(''ward'', [1, 1])]\<rparr>))
      = [(1, JUndefined), (1, JUndefined)]"
    by (simp add: clear_def for_in_keys_def i publish_def listeners_at_def new_StateManager_def
        quiet_def calls_made_def Let_def)
  have b: "remove_state quiet ward_manager ''toString'' =
      (ward_manager\<lparr>state := (state ward_manager)(''toString'' := None)\<rparr>, [], Some TypeError)"
    by (simp add: remove_state_def publish_def listeners_at_def ward_manager_def
        object_prototype_keys_def)
  have c: "clear_loop first_throws [''7'', ''ward'', ''bed'']
        (ward_manager\<lparr>state := Map.empty, state_proto := JObjectPrototype\<rparr>)
      = (ward_manager\<lparr>state := Map.empty, state_proto := JObjectPrototype\<rparr>,
         [(3, JUndefined), (1, JUndefined)], Some Thrown)"
    by (simp add: publish_def listeners_at_def ward_manager_def first_throws_def)
  have c': "clear first_throws ward_manager
      = (ward_manager\<lparr>state := Map.empty, state_proto := JObjectPrototype\<rparr>,
         [(3, JUndefined), (1, JUndefined)], Some Thrown)"
    unfolding clear_def Let_def using k c by simp
  have f1: "calls_made (clear quiet
       (fst (subscribe (fst (subscribe new_StateManager ''ward'' 1)) ''ward'' 1)))
     = [(1, JUndefined), (1, JUndefined)]"
    unfolding twice by (rule a)
  have f2: "calls_made (remove_state quiet ward_manager ''toString'') = []"
    and f3: "exception_of (remove_state quiet ward_manager ''toString'') = Some TypeError"
    unfolding b by (simp_all add: calls_made_def exception_of_def)
  have f4: "calls_made (clear first_throws ward_manager) = [(3, JUndefined), (1, JUndefined)]"
    and f5: "exception_of (clear first_throws ward_manager) = Some Thrown"
    unfolding c' by (simp_all add: calls_made_def exception_of_def)
  have "calls_made (clear_loop third_unsubscribes [''7'', ''ward'', ''bed'']
        (ward_manager\<lparr>state := Map.empty, state_proto := JObjectPrototype\<rparr>))
      = [(3, JUndefined), (1, JUndefined), (2, JUndefined)]"
    by (simp add: publish_def listeners_at_def ward_manager_def third_unsubscribes_def
        unsubscribe_def calls_made_def)
  then have f6: "calls_made (clear third_unsubscribes ward_manager)
      = [(3, JUndefined), (1, JUndefined), (2, JUndefined)]"
    unfolding clear_def Let_def using k by simp
  from f1 f2 f3 f4 f5 f6 show ?thesis by blast
qed

section \<open>LoadingManager\<close>

lemma overlays_ids:
  "overlays d = count_list (map elem_id (head d @ body d)) ''loading-overlay''"
proof -
  have "length (filter (\<lambda>e. elem_id e = i) es) = count_list (map elem_id es) i" for i es
    by (induction es) auto
  then show ?thesis unfolding overlays_def .
qed

lemma no_overlay_iff: "getElementById d ''loading-overlay'' = None \<longleftrightarrow> overlays d = 0"
  by (auto simp: getElementById_def overlays_def find_None_iff filter_empty_conv)

lemma overlays_show_page:
  "overlays (showLoading Page d) = (if overlays d = 0 then 1 else overlays d)"
  by (simp add: showLoading_def no_overlay_iff)
    (simp add: overlays_def overlay_def spin_style_def)

lemma showLoading_idem: "showLoading Page (showLoading Page d) = showLoading Page d"
proof -
  have "overlays (showLoading Page d) \<noteq> 0" by (simp add: overlays_show_page)
  then have "getElementById (showLoading Page d) ''loading-overlay'' \<noteq> None"
    by (simp add: no_overlay_iff)
  then show ?thesis by (simp add: showLoading_def[of Page "showLoading Page d"])
qed

lemma showLoading_funpow: "(showLoading Page ^^ Suc n) d = showLoading Page d"
  by (induction n) (simp_all add: showLoading_idem)

lemma count_remove_first:
  "count_list (map elem_id (remove_first i es)) i = count_list (map elem_id es) i - 1"
  by (induction es) auto

lemma count_remove_first_absent:
  "\<not> (\<exists>e \<in> set es. elem_id e = i) \<Longrightarrow> count_list (map elem_id es) i = 0"
  by (induction es) auto

lemma overlays_remove_element:
  "overlays (remove_element ''loading-overlay'' d) = overlays d - 1"
proof (cases "\<exists>e \<in> set (head d). elem_id e = ''loading-overlay''")
  case True
  then have "''loading-overlay'' \<in> set (map elem_id (head d))"
    by force
  then have "count_list (map elem_id (head d)) ''loading-overlay'' \<noteq> 0"
    by (simp only: count_list_0_iff not_not)
  with True show ?thesis
    by (simp add: remove_element_def overlays_ids count_remove_first)
next
  case False
  then show ?thesis
    by (simp add: remove_element_def overlays_ids count_remove_first
        count_remove_first_absent[OF False])
qed

lemma overlays_hide_page: "overlays (hideLoading Page d) = overlays d - 1"
proof (cases "getElementById d ''loading-overlay''")
  case None
  then show ?thesis by (simp add: hideLoading_def) (simp add: no_overlay_iff)
next
  case (Some e)
  then show ?thesis by (simp add: hideLoading_def overlays_remove_element)
qed

lemma ids_update:
  "n < length es \<Longrightarrow>
   map elem_id (es[n := (es ! n)\<lparr>classList := cs, disabled := b\<rparr>]) = map elem_id es"
  by (simp add: map_update list_update_same_conv)

lemma overlays_show_element: "overlays (showLoading (Element x) d) = overlays d"
  by (cases x) (simp_all add: showLoading_def overlays_ids ids_update)

lemma overlays_hide_element: "overlays (hideLoading (Element x) d) = overlays d"
  by (cases x) (simp_all add: hideLoading_def overlays_ids ids_update)

lemma overlays_step: "overlays d \<le> 1 \<Longrightarrow> overlays (loading_step d c) \<le> 1"
proof (cases c)
  case (ShowLoading t)
  assume "overlays d \<le> 1"
  with ShowLoading show ?thesis
    by (cases t) (simp_all add: overlays_show_page overlays_show_element)
next
  case (HideLoading t)
  assume "overlays d \<le> 1"
  with HideLoading show ?thesis
    by (cases t) (simp_all add: overlays_hide_page overlays_hide_element)
qed

lemma overlays_calls: "overlays d \<le> 1 \<Longrightarrow> overlays (foldl loading_step d cs) \<le> 1"
proof (induction cs arbitrary: d)
  case Nil
  then show ?case by simp
next
  case (Cons c cs)
  from Cons.prems have "overlays (loading_step d c) \<le> 1" by (rule overlays_step)
  then have "overlays (foldl loading_step (loading_step d c) cs) \<le> 1" by (rule Cons.IH)
  then show ?case by simp
qed

text \<open>
  C8: in a document that starts with at most one full-page overlay there is at most one
  after any sequence of calls of the loading manager; one or more calls of
  \<^verbatim>\<open>showLoading('page')\<close> in a row leave the document as the first of them does, with
  exactly one overlay (it is created at most once), and one \<^verbatim>\<open>hideLoading('page')\<close>
  after them leaves none, however many calls there were.
\<close>

theorem single_overlay:
  assumes "overlays d \<le> 1"
  shows "overlays (foldl loading_step d cs) \<le> 1
       \<and> (showLoading Page ^^ Suc n) d = showLoading Page d
       \<and> overlays ((showLoading Page ^^ Suc n) d) = 1
       \<and> overlays (hideLoading Page ((showLoading Page ^^ Suc n) d)) = 0"
proof -
  have "overlays (showLoading Page d) = 1"
    using assms by (simp add: overlays_show_page)
  then show ?thesis
    using overlays_calls[OF assms, of cs]
    by (simp only: showLoading_funpow overlays_hide_page) simp
qed

theorem single_overlay_witness:
  "overlays (foldl loading_step \<lparr>head = [], body = []\<rparr>
       [ShowLoading Page, ShowLoading Page, HideLoading Page, ShowLoading Page]) \<le> 1
   \<and> (showLoading Page ^^ 3) \<lparr>head = [], body = []\<rparr> =
       \<lparr>head = [spin_style], body = [overlay]\<rparr>
   \<and> overlays ((showLoading Page ^^ 3) \<lparr>head = [], body = []\<rparr>) = 1
   \<and> overlays (hideLoading Page ((showLoading Page ^^ 3) \<lparr>head = [], body = []\<rparr>)) = 0"
proof -
  have h: "overlays \<lparr>head = [], body = []\<rparr> \<le> 1"
    by (simp add: overlays_def)
  have s: "showLoading Page \<lparr>head = [], body = []\<rparr> = \<lparr>head = [spin_style], body = [overlay]\<rparr>"
    by (simp add: showLoading_def getElementById_def)
  have three: "(3::nat) = Suc 2" by simp
  from single_overlay[OF h, of "[ShowLoading Page, ShowLoading Page, HideLoading Page, ShowLoading Page]" 2]
  show ?thesis unfolding three s by blast
qed

section \<open>FormUtils.serializeForm\<close>

text \<open>
  C4 fails on the code: \<^verbatim>\<open>if (jsonData[key])\<close> tests the stored value, not the
  presence of the key, so when the first of two fields of one name is empty, the second
  value replaces it and no array is built.
\<close>

theorem serializeForm_empty_first_value:
  "serializeForm array_keys [(''phone'', []), (''phone'', ''555-0100'')] =
     \<lparr>props = [(''phone'', JStr ''555-0100'')], proto = None\<rparr>"
  by (simp add: serializeForm_def get_member_def object_member_def object_prototype_keys_def
      set_string_def)

text \<open>
  With a first value that is not empty, and a name that \<^verbatim>\<open>Object.prototype\<close> does
  not define, the values are collected in order.
\<close>

lemma serializeForm_two_fields:
  "k \<notin> set object_prototype_keys \<Longrightarrow> v1 \<noteq> [] \<Longrightarrow>
   serializeForm array_keys [(k, v1), (k, v2)] =
     \<lparr>props = [(k, JArr [JStr v1, JStr v2])], proto = None\<rparr>"
  by (auto simp: serializeForm_def get_member_def object_member_def set_string_def
      set_array_def object_prototype_keys_def)

lemma serializeForm_three_fields:
  "k \<notin> set object_prototype_keys \<Longrightarrow> v1 \<noteq> [] \<Longrightarrow>
   serializeForm array_keys [(k, v1), (k, v2), (k, v3)] =
     \<lparr>props = [(k, JArr [JStr v1, JStr v2, JStr v3])], proto = None\<rparr>"
  by (auto simp: serializeForm_def get_member_def object_member_def set_string_def
      set_array_def push_member_def object_prototype_keys_def)

lemma serializeForm_unique:
  "k \<notin> set object_prototype_keys \<Longrightarrow>
   serializeForm array_keys [(k, v)] = \<lparr>props = [(k, JStr v)], proto = None\<rparr>"
  by (auto simp: serializeForm_def get_member_def object_member_def set_string_def
      object_prototype_keys_def)

text \<open>
  A field named as a member of \<^verbatim>\<open>Object.prototype\<close> finds the inherited function
  and is put into an array with it; a field named \<^verbatim>\<open>__proto__\<close> replaces the
  prototype of \<^verbatim>\<open>jsonData\<close> by an array, which later fields read through.
\<close>

lemma serializeForm_inherited_name:
  "serializeForm array_keys [(''toString'', ''x'')] =
     \<lparr>props = [(''toString'', JArr [JFunction ''Object.prototype.toString'', JStr ''x''])],
      proto = None\<rparr>"
  by (simp add: serializeForm_def get_member_def object_member_def set_array_def
      object_prototype_keys_def)

lemma serializeForm_proto_name:
  "serializeForm array_keys [(''__proto__'', ''x''), (''__proto__'', ''y''), (''length'', ''z'')] =
     \<lparr>props = [(''length'', JArr [JNum 3, JStr ''z''])],
      proto = Some [JObjectPrototype, JStr ''x'', JStr ''y'']\<rparr>"
  by (simp add: serializeForm_def get_member_def object_member_def set_array_def
      push_member_def array_member_def)

section \<open>LandingHeader\<close>

text \<open>
  C9, as amended: when the request fails, the login flow sets the location to
  \<^verbatim>\<open>/auth/login\<close> and the signup flow to \<^verbatim>\<open>/auth/register\<close>, and nothing else
  happens but a line on the console. On success the same fixed paths are used when the
  response is falsy or its \<^verbatim>\<open>redirect_url\<close> is missing or falsy (empty,
  \<^verbatim>\<open>null\<close>); with a truthy \<^verbatim>\<open>redirect_url\<close> the location is set to it and
  nothing else changes.
\<close>

theorem header_redirects:
  "handleLoginClick (Inl (x, textStatus, errorThrown)) w =
     w\<lparr>console := console w @ [ConsoleError ''Login request failed:'' textStatus errorThrown],
       href := JStr ''/auth/login''\<rparr>
   \<and> handleSignupClick (Inl (x, textStatus, errorThrown)) w =
     w\<lparr>console := console w @ [ConsoleError ''Signup request failed:'' textStatus errorThrown],
       href := JStr ''/auth/register''\<rparr>
   \<and> (\<not> truthy (and_prop response ''redirect_url'') \<longrightarrow>
        href (handleLoginClick (Inr response) w) = JStr ''/auth/login''
        \<and> href (handleSignupClick (Inr response) w) = JStr ''/auth/register'')
   \<and> (get_prop response ''redirect_url'' = Some u \<and> truthy response \<and> truthy u \<longrightarrow>
        handleLoginClick (Inr response) w = w\<lparr>href := u\<rparr>
        \<and> handleSignupClick (Inr response) w = w\<lparr>href := u\<rparr>)"
  by (simp add: handleLoginClick_def handleSignupClick_def handleLoginSuccess_def
      handleSignupSuccess_def handleLoginError_def handleSignupError_def)

theorem header_redirects_witness:
  "href (handleLoginClick (Inl (service_unavailable, ''error'', ''Service Unavailable''))
       \<lparr>href = JStr ''/'', console = []\<rparr>) = JStr ''/auth/login''
   \<and> href (handleSignupClick (Inl (service_unavailable, ''error'', ''Service Unavailable''))
       \<lparr>href = JStr ''/'', console = []\<rparr>) = JStr ''/auth/register''
   \<and> href (handleLoginClick (Inr (JObj [(''message'', JStr ''ok'')])) \<lparr>href = JStr ''/'', console = []\<rparr>)
     = JStr ''/auth/login''
   \<and> href (handleSignupClick (Inr JNull) \<lparr>href = JStr ''/'', console = []\<rparr>) = JStr ''/auth/register''
   \<and> handleLoginClick (Inr (JObj [(''redirect_url'', JStr ''/portal/login/'')]))
       \<lparr>href = JStr ''/'', console = []\<rparr> = \<lparr>href = JStr ''/portal/login/'', console = []\<rparr>
   \<and> handleSignupClick (Inr (JObj [(''redirect_url'', JStr ''/portal/join/'')]))
       \<lparr>href = JStr ''/'', console = []\<rparr> = \<lparr>href = JStr ''/portal/join/'', console = []\<rparr>"
  using header_redirects[of service_unavailable "''error''" "''Service Unavailable''"
      "\<lparr>href = JStr ''/'', console = []\<rparr>" "JObj [(''message'', JStr ''ok'')]" JNull]
    header_redirects[of service_unavailable "''error''" "''Service Unavailable''"
      "\<lparr>href = JStr ''/'', console = []\<rparr>" "JNull" JNull]
    header_redirects[of service_unavailable "''error''" "''Service Unavailable''"
      "\<lparr>href = JStr ''/'', console = []\<rparr>"
      "JObj [(''redirect_url'', JStr ''/portal/login/'')]" "JStr ''/portal/login/''"]
    header_redirects[of service_unavailable "''error''" "''Service Unavailable''"
      "\<lparr>href = JStr ''/'', console = []\<rparr>"
      "JObj [(''redirect_url'', JStr ''/portal/join/'')]" "JStr ''/portal/join/''"]
  by simp

text \<open>
  A response that has a \<^verbatim>\<open>redirect_url\<close> field holding the empty string: the guard
  \<^verbatim>\<open>response && response.redirect_url\<close> sends the browser to the fixed path, not
  to that URL.
\<close>

theorem empty_redirect_url_counterexample:
  "get_prop (JObj [(''redirect_url'', JStr [])]) ''redirect_url'' = Some (JStr [])
   \<and> href (handleLoginClick (Inr (JObj [(''redirect_url'', JStr [])])) \<lparr>href = JStr ''/'', console = []\<rparr>)
       = JStr ''/auth/login''
   \<and> href (handleLoginClick (Inr (JObj [(''redirect_url'', JStr [])])) \<lparr>href = JStr ''/'', console = []\<rparr>)
       \<noteq> JStr []"
  by (simp add: handleLoginClick_def handleLoginSuccess_def)

end
